theory Spec2Isabelle
  imports Complex_Main "HOL-Library.Multiset"
begin

section \<open>The impact engine of climada: data model\<close>

text \<open>
  The embedding follows \<^verbatim>\<open>src/climada/engine/impact.py\<close>. Numbers are exact reals:
  numpy's float64 rounding is outside the model, so every equation below is an equation of
  exact arithmetic. A numpy array is a list; every raise of the source (and of the numpy
  calls it makes) is a branch returning \<open>Inl\<close>.

  Fields that \<^verbatim>\<open>calc\<close> copies through without computing on them
  (\<^verbatim>\<open>event_name\<close>, \<^verbatim>\<open>date\<close>, \<^verbatim>\<open>coord_exp\<close>, the three tags) and the label string of the
  frequency curve are left out: the classes they belong to (\<^verbatim>\<open>Tag\<close>, \<^verbatim>\<open>Coordinates\<close>) are not
  part of the source file.
\<close>

datatype error = ValueError | IndexError | KeyError

text \<open>
  A scipy sparse matrix: its shape and its entries; a cell that is not stored reads 0.
\<close>

record sparse_matrix =
  nrows :: nat
  ncols :: nat
  cell :: "nat \<Rightarrow> nat \<Rightarrow> real"

text \<open>
  \<^verbatim>\<open>Exposures\<close>: the arrays \<^verbatim>\<open>value\<close>, \<^verbatim>\<open>deductible\<close>, \<^verbatim>\<open>cover\<close>, \<^verbatim>\<open>impact_id\<close>, the dict
  \<^verbatim>\<open>assigned\<close> from hazard type to the array of centroid indices, and \<^verbatim>\<open>value_unit\<close>.
\<close>

record exposures =
  exp_value :: "real list"
  exp_deductible :: "real list"
  exp_cover :: "real list"
  exp_impact_id :: "int list"
  exp_assigned :: "string \<rightharpoonup> int list"
  exp_value_unit :: string

text \<open>
  \<^verbatim>\<open>Hazard\<close>: \<^verbatim>\<open>tag.haz_type\<close>, \<^verbatim>\<open>event_id\<close>, \<^verbatim>\<open>frequency\<close> and the two event x centroid
  matrices \<^verbatim>\<open>intensity\<close> and \<^verbatim>\<open>fraction\<close>.
\<close>

record hazard =
  haz_type :: string
  haz_event_id :: "int list"
  haz_frequency :: "real list"
  haz_intensity :: sparse_matrix
  haz_fraction :: sparse_matrix

text \<open>
  \<^verbatim>\<open>ImpactFunc\<close>: the class is not in the source file; the fields are the ones the spec's
  data model names (id, sorted intensity breakpoints, co-indexed mdr and paa).
\<close>

record imp_fun =
  if_id :: int
  if_intensity :: "real list"
  if_mdr :: "real list"
  if_paa :: "real list"

text \<open>
  \<^verbatim>\<open>Impact\<close>: the fields \<^verbatim>\<open>calc\<close> computes, and \<^verbatim>\<open>unit\<close>, \<^verbatim>\<open>event_id\<close>, \<^verbatim>\<open>frequency\<close>.
\<close>

record impact =
  imp_unit :: string
  event_id :: "int list"
  frequency :: "real list"
  at_event :: "real list"
  eai_exp :: "real list"
  tot_value :: real
  aai_agg :: real

text \<open>\<^verbatim>\<open>Impact.__init__\<close>: the state of a freshly constructed object.\<close>

definition Impact_init :: impact where
  "Impact_init = \<lparr>imp_unit = ''NA'', event_id = [], frequency = [], at_event = [],
     eai_exp = [], tot_value = 0, aai_agg = 0\<rparr>"

text \<open>
  An entry of \<^verbatim>\<open>return_per\<close>: numpy's \<^verbatim>\<open>1/x\<close> on a float array does not raise at \<^verbatim>\<open>x = 0\<close>,
  it yields \<^verbatim>\<open>inf\<close> (with a RuntimeWarning).
\<close>

datatype np_float = Fin real | PInf

record impact_freq_curve =
  return_per :: "np_float list"
  impact :: "real list"
  ifc_unit :: string

section \<open>The numpy operations the source calls\<close>

text \<open>
  Elementwise binary operation with numpy's broadcasting of one-dimensional arrays: equal
  lengths, or one operand of length 1; anything else raises ValueError.
\<close>

definition broadcast2 :: "('a \<Rightarrow> 'b \<Rightarrow> 'c) \<Rightarrow> 'a list \<Rightarrow> 'b list \<Rightarrow> error + 'c list" where
  "broadcast2 f xs ys =
     (if length xs = length ys then Inr (map2 f xs ys)
      else if length xs = 1 then Inr (map (f (hd xs)) ys)
      else if length ys = 1 then Inr (map (\<lambda>x. f x (hd ys)) xs)
      else Inl ValueError)"

text \<open>\<^verbatim>\<open>np.where(mask)[0]\<close>: the positions of the true entries, ascending.\<close>

definition np_where :: "bool list \<Rightarrow> nat list" where
  "np_where bs = filter (\<lambda>i. bs ! i) [0..<length bs]"

text \<open>\<^verbatim>\<open>a[idx]\<close> for an index array of non-negative indices: IndexError out of range.\<close>

definition gather :: "'a list \<Rightarrow> nat list \<Rightarrow> error + 'a list" where
  "gather a idx =
     (if list_ex (\<lambda>i. length a \<le> i) idx then Inl IndexError else Inr (map (\<lambda>i. a ! i) idx))"

text \<open>\<^verbatim>\<open>a[idx] = vals\<close>: the assignments happen in order, a repeated index keeps the last.\<close>

definition scatter :: "'a list \<Rightarrow> nat list \<Rightarrow> 'a list \<Rightarrow> 'a list" where
  "scatter a idx vals = fold (\<lambda>(i, v) b. b[i := v]) (zip idx vals) a"

text \<open>
  \<^verbatim>\<open>a[idx] += vals\<close> is \<^verbatim>\<open>a[idx] = a[idx] + vals\<close>: the old values are read first.
\<close>

definition iadd_at :: "real list \<Rightarrow> nat list \<Rightarrow> real list \<Rightarrow> error + real list" where
  "iadd_at a idx vals =
     (case gather a idx of
        Inl e \<Rightarrow> Inl e
      | Inr old \<Rightarrow> Inr (scatter a idx (map2 (+) old vals)))"

text \<open>
  \<^verbatim>\<open>np.interp(x, xp, fp)\<close> at one point, for increasing \<^verbatim>\<open>xp\<close>: \<^verbatim>\<open>fp[0]\<close> left of the first
  breakpoint, \<^verbatim>\<open>fp[-1]\<close> right of the last, and on the segment \<^verbatim>\<open>xp[j] <= x < xp[j+1]\<close> the
  value \<^verbatim>\<open>fp[j] + slope * (x - xp[j])\<close>. numpy finds the segment by binary search; for
  increasing \<^verbatim>\<open>xp\<close> the scan from the left finds the same one.
\<close>

fun interp1 :: "real list \<Rightarrow> real list \<Rightarrow> real \<Rightarrow> real" where
  "interp1 (x0 # x1 # xs) (y0 # y1 # ys) x =
     (if x < x1 then (if x \<le> x0 then y0 else y0 + (y1 - y0) / (x1 - x0) * (x - x0))
      else interp1 (x1 # xs) (y1 # ys) x)"
| "interp1 [x0] [y0] x = y0"
| "interp1 xp fp x = 0"

text \<open>
  \<^verbatim>\<open>np.interp\<close> on an array: ValueError when \<^verbatim>\<open>xp\<close> is empty or \<^verbatim>\<open>fp\<close> has another length.
\<close>

definition np_interp :: "real list \<Rightarrow> real list \<Rightarrow> real list \<Rightarrow> error + real list" where
  "np_interp xs xp fp =
     (if xp = [] then Inl ValueError
      else if length fp \<noteq> length xp then Inl ValueError
      else Inr (map (interp1 xp fp) xs))"

text \<open>\<^verbatim>\<open>np.count_nonzero\<close>.\<close>

definition count_nonzero :: "real list \<Rightarrow> nat" where
  "count_nonzero xs = length (filter (\<lambda>x. x \<noteq> 0) xs)"

text \<open>
  A Python index into an axis of length \<open>n\<close>: a negative index counts from the end.
\<close>

definition py_index :: "int \<Rightarrow> nat \<Rightarrow> error + nat" where
  "py_index i n =
     (let j = (if i < 0 then int n + i else i)
      in if 0 \<le> j \<and> j < int n then Inr (nat j) else Inl IndexError)"

text \<open>\<^verbatim>\<open>np.cumsum\<close>.\<close>

fun cumsum_from :: "real \<Rightarrow> real list \<Rightarrow> real list" where
  "cumsum_from acc [] = []"
| "cumsum_from acc (x # xs) = (acc + x) # cumsum_from (acc + x) xs"

definition cumsum :: "real list \<Rightarrow> real list" where
  "cumsum xs = cumsum_from 0 xs"

text \<open>\<^verbatim>\<open>1/x\<close> on one float of an array: \<^verbatim>\<open>inf\<close> at zero.\<close>

definition np_recip :: "real \<Rightarrow> np_float" where
  "np_recip x = (if x = 0 then PInf else Fin (1 / x))"

text \<open>The order of floats with \<^verbatim>\<open>inf\<close> on top.\<close>

fun np_le :: "np_float \<Rightarrow> np_float \<Rightarrow> bool" where
  "np_le a PInf = True"
| "np_le PInf (Fin b) = False"
| "np_le (Fin a) (Fin b) = (a \<le> b)"

text \<open>
  \<^verbatim>\<open>np.argsort\<close> with its default kind is not stable: numpy promises an index array
  that orders the values ascending and nothing about ties. \<open>is_argsort\<close> is that
  promise; \<open>argsort_stable\<close> is the routine that keeps ties in their original order.
\<close>

definition is_argsort :: "real list \<Rightarrow> nat list \<Rightarrow> bool" where
  "is_argsort a idx \<longleftrightarrow> mset idx = mset [0..<length a] \<and> sorted (map (\<lambda>i. a ! i) idx)"

definition argsort_stable :: "real list \<Rightarrow> nat list" where
  "argsort_stable a = sort_key (\<lambda>i. a ! i) [0..<length a]"

section \<open>The program\<close>

subsection \<open>The vulnerability evaluator\<close>

text \<open>
  Modelled from the spec: \<^verbatim>\<open>ImpactFunc.calc_mdr\<close> is called by \<^verbatim>\<open>_one_exposure\<close> and is
  not in the source file. The spec (4.1) gives it as the piecewise-linear interpolation of
  the mean damage ratio over the function's intensity breakpoints, flat outside them, "the
  same interpolation scheme" as the \<^verbatim>\<open>np.interp\<close> the source applies to \<^verbatim>\<open>paa\<close>.
\<close>

definition calc_mdr :: "imp_fun \<Rightarrow> real list \<Rightarrow> error + real list" where
  "calc_mdr imp_fun inten = np_interp inten (if_intensity imp_fun) (if_mdr imp_fun)"

text \<open>
  Modelled from the spec: \<^verbatim>\<open>ImpactFuncSet.get_func\<close> is not in the source file. The spec's
  data model gives the set as a mapping from hazard type to an ordered collection of impact
  functions; the set is represented by the collection \<^verbatim>\<open>get_func\<close> yields for each type.
\<close>

type_synonym impact_func_set = "string \<Rightarrow> imp_fun list"

definition get_func :: "impact_func_set \<Rightarrow> string \<Rightarrow> imp_fun list" where
  "get_func impact_funcs haz = impact_funcs haz"

subsection \<open>\<^verbatim>\<open>Impact._one_exposure\<close>\<close>

text \<open>
  The clipping of line 244: \<^verbatim>\<open>np.minimum(np.maximum(impact - deductible * paa, 0), cover)\<close>.
\<close>

definition clip_impact :: "real \<Rightarrow> real \<Rightarrow> real list \<Rightarrow> real list \<Rightarrow> real list" where
  "clip_impact ded cov imp paa = map2 (\<lambda>i p. min (max (i - ded * p) 0) cov) imp paa"

text \<open>
  Line 231: the rows of the nonzero entries of column \<open>icen\<close> of the intensity matrix,
  ascending.
\<close>

definition event_rows :: "hazard \<Rightarrow> nat \<Rightarrow> nat list" where
  "event_rows hazard icen =
     filter (\<lambda>e. cell (haz_intensity hazard) e icen \<noteq> 0) [0..<nrows (haz_intensity hazard)]"

text \<open>
  Lines 228 to 238: the relevant events, their intensities and the impact before clipping.
\<close>

definition raw_impact ::
  "nat \<Rightarrow> exposures \<Rightarrow> hazard \<Rightarrow> imp_fun \<Rightarrow> error + (nat list \<times> real list \<times> real list)" where
  "raw_impact iexp exposures hazard imp_fun =
     (case exp_assigned exposures (haz_type hazard) of
        None \<Rightarrow> Inl KeyError
      | Some cen \<Rightarrow>
          if length cen \<le> iexp then Inl IndexError
          else
            (case py_index (cen ! iexp) (ncols (haz_intensity hazard)) of
               Inl e \<Rightarrow> Inl e
             | Inr icen \<Rightarrow>
                 let event_row = event_rows hazard icen;
                     inten_val = map (\<lambda>e. cell (haz_intensity hazard) e icen) event_row
                 in
                   (case py_index (cen ! iexp) (ncols (haz_fraction hazard)) of
                      Inl e \<Rightarrow> Inl e
                    | Inr fcen \<Rightarrow>
                        (case gather (map (\<lambda>e. cell (haz_fraction hazard) e fcen)
                                        [0..<nrows (haz_fraction hazard)]) event_row of
                           Inl e \<Rightarrow> Inl e
                         | Inr fract \<Rightarrow>
                             if length (exp_value exposures) \<le> iexp then Inl IndexError
                             else
                               (case calc_mdr imp_fun inten_val of
                                  Inl e \<Rightarrow> Inl e
                                | Inr mdr \<Rightarrow>
                                    Inr (event_row, inten_val,
                                      map2 (\<lambda>m f. exp_value exposures ! iexp * m * f)
                                        mdr fract))))))"

text \<open>Lines 239 to 247: the clipping, behind its two guards.\<close>

definition one_exposure ::
  "nat \<Rightarrow> exposures \<Rightarrow> hazard \<Rightarrow> imp_fun \<Rightarrow> error + (nat list \<times> real list)" where
  "one_exposure iexp exposures hazard imp_fun =
     (case raw_impact iexp exposures hazard imp_fun of
        Inl e \<Rightarrow> Inl e
      | Inr (event_row, inten_val, imp) \<Rightarrow>
          if count_nonzero imp > 0 then
            (case np_interp inten_val (if_intensity imp_fun) (if_paa imp_fun) of
               Inl e \<Rightarrow> Inl e
             | Inr paa \<Rightarrow>
                 if length (exp_deductible exposures) \<le> iexp then Inl IndexError
                 else if length (exp_cover exposures) \<le> iexp then Inl IndexError
                 else if exp_deductible exposures ! iexp > 0 \<or>
                         exp_cover exposures ! iexp < exp_value exposures ! iexp
                 then Inr (event_row,
                        clip_impact (exp_deductible exposures ! iexp)
                          (exp_cover exposures ! iexp) imp paa)
                 else Inr (event_row, imp))
          else Inr (event_row, imp))"

subsection \<open>\<^verbatim>\<open>Impact.calc\<close>\<close>

text \<open>
  The body of the inner loop (lines 181 to 188) on the state \<open>self\<close>: the three updates
  happen in the source's order, and a raise abandons the call.
\<close>

definition exposure_step ::
  "nat \<Rightarrow> exposures \<Rightarrow> hazard \<Rightarrow> imp_fun \<Rightarrow> impact \<Rightarrow> error + impact" where
  "exposure_step iexp exposures hazard imp_fun self =
     (case one_exposure iexp exposures hazard imp_fun of
        Inl e \<Rightarrow> Inl e
      | Inr (event_row, imp) \<Rightarrow>
          (case iadd_at (at_event self) event_row imp of
             Inl e \<Rightarrow> Inl e
           | Inr at_event' \<Rightarrow>
               (case gather (haz_frequency hazard) event_row of
                  Inl e \<Rightarrow> Inl e
                | Inr freq \<Rightarrow>
                    if length (eai_exp self) \<le> iexp then Inl IndexError
                    else if length (exp_value exposures) \<le> iexp then Inl IndexError
                    else Inr (self\<lparr>at_event := at_event',
                           eai_exp := (eai_exp self)
                             [iexp := eai_exp self ! iexp + sum_list (map2 (*) imp freq)],
                           tot_value := tot_value self + exp_value exposures ! iexp\<rparr>))))"

fun exposure_loop ::
  "nat list \<Rightarrow> exposures \<Rightarrow> hazard \<Rightarrow> imp_fun \<Rightarrow> impact \<Rightarrow> error + impact" where
  "exposure_loop [] exposures hazard imp_fun self = Inr self"
| "exposure_loop (iexp # rest) exposures hazard imp_fun self =
     (case exposure_step iexp exposures hazard imp_fun self of
        Inl e \<Rightarrow> Inl e
      | Inr self' \<Rightarrow> exposure_loop rest exposures hazard imp_fun self')"

text \<open>
  The loop over the impact functions (lines 174 to 188): \<^verbatim>\<open>exp_iimp\<close> are the positions in
  \<^verbatim>\<open>exp_idx\<close> of the exposures with this function's id.
\<close>

fun impact_func_loop ::
  "imp_fun list \<Rightarrow> nat list \<Rightarrow> exposures \<Rightarrow> hazard \<Rightarrow> impact \<Rightarrow> error + impact" where
  "impact_func_loop [] exp_idx exposures hazard self = Inr self"
| "impact_func_loop (imp_fun # rest) exp_idx exposures hazard self =
     (case gather (exp_impact_id exposures) exp_idx of
        Inl e \<Rightarrow> Inl e
      | Inr ids \<Rightarrow>
          let exp_iimp = np_where (map (\<lambda>j. j = if_id imp_fun) ids)
          in
            (case gather exp_idx exp_iimp of
               Inl e \<Rightarrow> Inl e
             | Inr sel \<Rightarrow>
                 (case exposure_loop sel exposures hazard imp_fun self of
                    Inl e \<Rightarrow> Inl e
                  | Inr self' \<Rightarrow> impact_func_loop rest exp_idx exposures hazard self')))"

text \<open>
  Step 1 of \<^verbatim>\<open>calc\<close>. \<^verbatim>\<open>Exposures.assign\<close> is an external collaborator: \<open>assign\<close> is the
  array of centroid indices it computes, which it stores under the hazard's type. The
  source's first test, \<^verbatim>\<open>not exposures.assigned\<close> (an empty dict), implies its second.
\<close>

definition assign_if_needed ::
  "(exposures \<Rightarrow> hazard \<Rightarrow> int list) \<Rightarrow> exposures \<Rightarrow> hazard \<Rightarrow> exposures" where
  "assign_if_needed assign exposures hazard =
     (if exp_assigned exposures (haz_type hazard) = None
      then exposures\<lparr>exp_assigned :=
             (exp_assigned exposures)(haz_type hazard \<mapsto> assign exposures hazard)\<rparr>
      else exposures)"

text \<open>
  Lines 158 and 159: \<^verbatim>\<open>exp_idx\<close>, the indices where both tests hold.
\<close>

definition select_exposures :: "exposures \<Rightarrow> hazard \<Rightarrow> error + nat list" where
  "select_exposures exposures hazard =
     (case exp_assigned exposures (haz_type hazard) of
        None \<Rightarrow> Inl KeyError
      | Some cen \<Rightarrow>
          (case broadcast2 (\<lambda>v c. v > 0 \<and> c \<ge> 0) (exp_value exposures) cen of
             Inl e \<Rightarrow> Inl e
           | Inr sel \<Rightarrow> Inr (np_where sel)))"

text \<open>
  Step 2 of \<^verbatim>\<open>calc\<close> (lines 145 to 156): the fields it resets on the object \<open>self\<close>.
  \<^verbatim>\<open>aai_agg\<close> is not among them.
\<close>

definition initialize :: "impact \<Rightarrow> exposures \<Rightarrow> hazard \<Rightarrow> impact" where
  "initialize self exposures hazard =
     self\<lparr>imp_unit := exp_value_unit exposures,
          event_id := haz_event_id hazard,
          frequency := haz_frequency hazard,
          at_event := replicate (nrows (haz_intensity hazard)) 0,
          eai_exp := replicate (length (exp_value exposures)) 0,
          tot_value := 0\<rparr>"

text \<open>
  \<^verbatim>\<open>calc\<close> on the object \<open>self\<close>. The early return of line 163 leaves \<^verbatim>\<open>aai_agg\<close> as the
  object had it (0 on a freshly constructed one): only line 190 assigns it.
\<close>

definition calc ::
  "(exposures \<Rightarrow> hazard \<Rightarrow> int list) \<Rightarrow> impact \<Rightarrow> exposures \<Rightarrow> impact_func_set \<Rightarrow> hazard
     \<Rightarrow> error + impact" where
  "calc assign self exposures0 impact_funcs hazard =
     (let exposures = assign_if_needed assign exposures0 hazard;
          self1 = initialize self exposures hazard
      in
        (case select_exposures exposures hazard of
           Inl e \<Rightarrow> Inl e
         | Inr exp_idx \<Rightarrow>
             if length exp_idx = 0 then Inr self1
             else
               (case impact_func_loop (get_func impact_funcs (haz_type hazard))
                       exp_idx exposures hazard self1 of
                  Inl e \<Rightarrow> Inl e
                | Inr self2 \<Rightarrow>
                    (case broadcast2 (*) (at_event self2) (haz_frequency hazard) of
                       Inl e \<Rightarrow> Inl e
                     | Inr prods \<Rightarrow> Inr (self2\<lparr>aai_agg := sum_list prods\<rparr>)))))"

subsection \<open>\<^verbatim>\<open>Impact.calc_freq_curve\<close>\<close>

text \<open>
  \<open>argsort\<close> is the sorting routine behind \<^verbatim>\<open>np.argsort\<close>; \<^verbatim>\<open>[::-1]\<close> reverses its result.
\<close>

definition calc_freq_curve :: "(real list \<Rightarrow> nat list) \<Rightarrow> impact \<Rightarrow> error + impact_freq_curve" where
  "calc_freq_curve argsort self =
     (let sort_idxs = rev (argsort (at_event self))
      in
        (case gather (frequency self) sort_idxs of
           Inl e \<Rightarrow> Inl e
         | Inr freq \<Rightarrow>
             let exceed_freq = cumsum freq
             in
               (case gather (at_event self) sort_idxs of
                  Inl e \<Rightarrow> Inl e
                | Inr imp \<Rightarrow>
                    Inr \<lparr>return_per = map np_recip exceed_freq, impact = imp,
                         ifc_unit = imp_unit self\<rparr>)))"

section \<open>Valid inputs\<close>

text \<open>
  The spec's data model as predicates on the inputs after step 1 of \<^verbatim>\<open>calc\<close>: the
  per-exposure arrays have one length, every assigned centroid is a column of the hazard's
  matrices (a negative entry is the "unassigned" sentinel), the two matrices have one shape,
  and there is one frequency per event.
\<close>

definition shapes_ok :: "exposures \<Rightarrow> hazard \<Rightarrow> bool" where
  "shapes_ok exposures hazard \<longleftrightarrow>
     (case exp_assigned exposures (haz_type hazard) of
        None \<Rightarrow> False
      | Some cen \<Rightarrow>
          length cen = length (exp_value exposures) \<and>
          length (exp_deductible exposures) = length (exp_value exposures) \<and>
          length (exp_cover exposures) = length (exp_value exposures) \<and>
          length (exp_impact_id exposures) = length (exp_value exposures) \<and>
          list_all (\<lambda>c. c < int (ncols (haz_intensity hazard))) cen \<and>
          ncols (haz_fraction hazard) = ncols (haz_intensity hazard) \<and>
          nrows (haz_fraction hazard) = nrows (haz_intensity hazard) \<and>
          length (haz_frequency hazard) = nrows (haz_intensity hazard))"

text \<open>
  An impact function: at least one breakpoint, the breakpoints sorted, \<^verbatim>\<open>mdr\<close> and \<^verbatim>\<open>paa\<close>
  co-indexed with them.
\<close>

definition imp_fun_ok :: "imp_fun \<Rightarrow> bool" where
  "imp_fun_ok f \<longleftrightarrow>
     if_intensity f \<noteq> [] \<and> sorted (if_intensity f) \<and>
     length (if_mdr f) = length (if_intensity f) \<and>
     length (if_paa f) = length (if_intensity f)"

text \<open>
  The functions of one hazard type are looked up by id: no two of them share an id.
\<close>

definition valid_input :: "exposures \<Rightarrow> impact_func_set \<Rightarrow> hazard \<Rightarrow> bool" where
  "valid_input exposures impact_funcs hazard \<longleftrightarrow>
     shapes_ok exposures hazard \<and>
     list_all imp_fun_ok (get_func impact_funcs (haz_type hazard)) \<and>
     distinct (map if_id (get_func impact_funcs (haz_type hazard)))"

text \<open>
  The selection as the spec words it: the indices \<open>i\<close> with \<open>value[i] > 0\<close> and a
  non-negative assigned centroid for the hazard's type.
\<close>

definition eligible :: "exposures \<Rightarrow> hazard \<Rightarrow> nat list" where
  "eligible exposures hazard =
     (case exp_assigned exposures (haz_type hazard) of
        None \<Rightarrow> []
      | Some cen \<Rightarrow>
          filter (\<lambda>i. exp_value exposures ! i > 0 \<and> cen ! i \<ge> 0)
            [0..<length (exp_value exposures)])"

text \<open>The assigned centroid of exposure \<open>i\<close> as a column index.\<close>

definition centroid :: "exposures \<Rightarrow> hazard \<Rightarrow> nat \<Rightarrow> nat" where
  "centroid exposures hazard i =
     (case exp_assigned exposures (haz_type hazard) of
        None \<Rightarrow> 0
      | Some cen \<Rightarrow> nat (cen ! i))"

text \<open>
  Exposure \<open>i\<close> exists and has an assigned centroid (not the negative sentinel).
\<close>

definition assigned_at :: "exposures \<Rightarrow> hazard \<Rightarrow> nat \<Rightarrow> bool" where
  "assigned_at exposures hazard i \<longleftrightarrow>
     (case exp_assigned exposures (haz_type hazard) of
        None \<Rightarrow> False
      | Some cen \<Rightarrow> i < length (exp_value exposures) \<and> 0 \<le> cen ! i)"

text \<open>
  The raw impact as the spec words it (4.2, step 4): exposure value times the interpolated
  mean damage ratio at the event's intensity times the fraction at the same cell, for the
  relevant events in ascending order.
\<close>

definition spec_raw_impact :: "exposures \<Rightarrow> hazard \<Rightarrow> imp_fun \<Rightarrow> nat \<Rightarrow> real list" where
  "spec_raw_impact exposures hazard imp_fun i =
     map (\<lambda>e. exp_value exposures ! i
               * interp1 (if_intensity imp_fun) (if_mdr imp_fun)
                   (cell (haz_intensity hazard) e (centroid exposures hazard i))
               * cell (haz_fraction hazard) e (centroid exposures hazard i))
       (event_rows hazard (centroid exposures hazard i))"

text \<open>
  The shape of the two accumulators during the loops: one entry per event, one per exposure.
\<close>

definition state_ok :: "exposures \<Rightarrow> hazard \<Rightarrow> impact \<Rightarrow> bool" where
  "state_ok exposures hazard self \<longleftrightarrow>
     length (at_event self) = nrows (haz_intensity hazard) \<and>
     length (eai_exp self) = length (exp_value exposures)"

section \<open>The end-to-end example of the spec\<close>

definition ex_exposures :: exposures where
  "ex_exposures = \<lparr>exp_value = [100], exp_deductible = [0], exp_cover = [100],
     exp_impact_id = [1], exp_assigned = [''TC'' \<mapsto> [0]], exp_value_unit = ''USD''\<rparr>"

definition ex_imp_fun :: imp_fun where
  "ex_imp_fun = \<lparr>if_id = 1, if_intensity = [0, 10], if_mdr = [0, 1], if_paa = [0, 1]\<rparr>"

definition ex_funcs :: impact_func_set where
  "ex_funcs = (\<lambda>h. if h = ''TC'' then [ex_imp_fun] else [])"

definition ex_hazard :: hazard where
  "ex_hazard = \<lparr>haz_type = ''TC'', haz_event_id = [1, 2], haz_frequency = [1 / 10, 1 / 100],
     haz_intensity = \<lparr>nrows = 2, ncols = 1, cell = (\<lambda>e c. [[5], [10]] ! e ! c)\<rparr>,
     haz_fraction = \<lparr>nrows = 2, ncols = 1, cell = (\<lambda>e c. 1)\<rparr>\<rparr>"

text \<open>The example's exposures are assigned already: the collaborator is never called.\<close>

definition no_assign :: "exposures \<Rightarrow> hazard \<Rightarrow> int list" where
  "no_assign exposures hazard = []"

definition ex_impact :: impact where
  "ex_impact = \<lparr>imp_unit = ''USD'', event_id = [1, 2], frequency = [1 / 10, 1 / 100],
     at_event = [50, 100], eai_exp = [6], tot_value = 100, aai_agg = 6\<rparr>"

section \<open>Further example inputs\<close>

text \<open>The example with its one exposure worth nothing: no exposure is selected.\<close>

definition ex0_exposures :: exposures where
  "ex0_exposures = ex_exposures\<lparr>exp_value := [0]\<rparr>"

text \<open>
  The example with an exposure whose \<^verbatim>\<open>impact_id\<close> is 2, while the only impact function of
  the hazard's type has id 1.
\<close>

definition ex4_exposures :: exposures where
  "ex4_exposures = ex_exposures\<lparr>exp_impact_id := [2]\<rparr>"

text \<open>
  Two exposures on two centroids; no event reaches the second centroid.
\<close>

definition ex2_exposures :: exposures where
  "ex2_exposures = \<lparr>exp_value = [100, 40], exp_deductible = [0, 0], exp_cover = [100, 40],
     exp_impact_id = [1, 1], exp_assigned = [''TC'' \<mapsto> [0, 1]], exp_value_unit = ''USD''\<rparr>"

definition ex2_hazard :: hazard where
  "ex2_hazard = \<lparr>haz_type = ''TC'', haz_event_id = [1, 2], haz_frequency = [1 / 10, 1 / 100],
     haz_intensity = \<lparr>nrows = 2, ncols = 2, cell = (\<lambda>e c. [[5, 0], [10, 0]] ! e ! c)\<rparr>,
     haz_fraction = \<lparr>nrows = 2, ncols = 2, cell = (\<lambda>e c. 1)\<rparr>\<rparr>"

text \<open>The example with a deductible of 10 and a cover of 60: the clipping applies.\<close>

definition exc_exposures :: exposures where
  "exc_exposures = ex_exposures\<lparr>exp_deductible := [10], exp_cover := [60]\<rparr>"

text \<open>The example with a cover of -5: the clipping applies, since cover < value.\<close>

definition exn_exposures :: exposures where
  "exn_exposures = ex_exposures\<lparr>exp_cover := [- 5]\<rparr>"

text \<open>The example's hazard with a fraction of -1 in every cell.\<close>

definition exg_hazard :: hazard where
  "exg_hazard = ex_hazard\<lparr>haz_fraction := \<lparr>nrows = 2, ncols = 1, cell = (\<lambda>e c. - 1)\<rparr>\<rparr>"

text \<open>The example's impact function with a mean damage ratio of 2 at intensity 10.\<close>

definition exm_imp_fun :: imp_fun where
  "exm_imp_fun = ex_imp_fun\<lparr>if_mdr := [0, 2]\<rparr>"



text \<open>
  An \<^verbatim>\<open>Impact\<close> of three events whose most damaging event has frequency 0.
\<close>

definition exf_impact :: impact where
  "exf_impact = \<lparr>imp_unit = ''USD'', event_id = [1, 2, 3], frequency = [1 / 10, 0, 1 / 20],
     at_event = [50, 100, 70], eai_exp = [17 / 2], tot_value = 100, aai_agg = 17 / 2\<rparr>"

section \<open>Lemmas on the numpy operations\<close>

lemma gather_Inr: "gather a idx = Inr v \<longleftrightarrow> (\<forall>i\<in>set idx. i < length a) \<and> v = map (\<lambda>i. a ! i) idx"
proof (cases "list_ex (\<lambda>i. length a \<le> i) idx")
  case True
  then have "\<not> (\<forall>i\<in>set idx. i < length a)" unfolding list_ex_iff using leD by blast
  with True show ?thesis by (simp add: gather_def)
next
  case False
  then have "\<forall>i\<in>set idx. i < length a" unfolding list_ex_iff using not_le by blast
  with False show ?thesis by (auto simp: gather_def)
qed

lemma gather_ok: "\<forall>i\<in>set idx. i < length a \<Longrightarrow> gather a idx = Inr (map (\<lambda>i. a ! i) idx)"
  by (simp add: gather_Inr)

lemma length_scatter: "length (scatter a idx vals) = length a"
proof -
  have "length (fold (\<lambda>(i, v) b. b[i := v]) ps a) = length a" for ps :: "(nat \<times> 'a) list"
    by (induction ps arbitrary: a) (auto split: prod.splits)
  then show ?thesis by (simp add: scatter_def)
qed

lemma scatter_Cons: "scatter a (i # idx) (v # vals) = scatter (a[i := v]) idx vals"
  by (simp add: scatter_def)

lemma scatter_Nil: "scatter a [] vals = a" "scatter a idx [] = a"
  by (simp_all add: scatter_def)

lemma set_scatter: "x \<in> set (scatter a idx vals) \<Longrightarrow> x \<in> set a \<or> x \<in> set vals"
proof (induction idx arbitrary: a vals)
  case Nil
  then show ?case by (simp add: scatter_Nil)
next
  case (Cons i idx)
  show ?case
  proof (cases vals)
    case Nil
    with Cons.prems show ?thesis by (simp add: scatter_Nil)
  next
    case (Cons v vs)
    with Cons.prems have "x \<in> set (scatter (a[i := v]) idx vs)" by (simp add: scatter_Cons)
    then have "x \<in> set (a[i := v]) \<or> x \<in> set vs" by (rule Cons.IH)
    moreover have "set (a[i := v]) \<subseteq> insert v (set a)" by (rule set_update_subset_insert)
    ultimately show ?thesis using Cons by auto
  qed
qed

lemma dot_update:
  fixes a f :: "real list"
  shows "i < length a \<Longrightarrow> length f = length a \<Longrightarrow>
    sum_list (map2 (*) (a[i := v]) f) = sum_list (map2 (*) a f) + (v - a ! i) * f ! i"
proof (induction a arbitrary: i f)
  case Nil
  then show ?case by simp
next
  case (Cons x a)
  then obtain y g where f: "f = y # g" by (cases f) auto
  show ?case
  proof (cases i)
    case 0
    then show ?thesis using f by (simp add: algebra_simps)
  next
    case (Suc j)
    then show ?thesis using f Cons by simp
  qed
qed

lemma dot_scatter:
  fixes a f :: "real list"
  shows "distinct idx \<Longrightarrow> \<forall>i\<in>set idx. i < length a \<Longrightarrow> length news = length idx \<Longrightarrow>
    length f = length a \<Longrightarrow>
    sum_list (map2 (*) (scatter a idx news) f) =
      sum_list (map2 (*) a f) + sum_list (map2 (\<lambda>i v. (v - a ! i) * f ! i) idx news)"
proof (induction idx arbitrary: a news)
  case Nil
  then show ?case by (simp add: scatter_Nil)
next
  case (Cons i idx)
  then obtain v vs where news: "news = v # vs" by (cases news) auto
  have notin: "i \<notin> set idx" using Cons.prems(1) by simp
  have same: "map2 (\<lambda>j w. (w - a[i := v] ! j) * f ! j) idx vs = map2 (\<lambda>j w. (w - a ! j) * f ! j) idx vs"
  proof -
    have "\<forall>j\<in>set idx. a[i := v] ! j = a ! j" using notin by (metis nth_list_update_neq)
    then show ?thesis by (auto intro!: map_cong dest!: set_zip_leftD)
  qed
  have "sum_list (map2 (*) (scatter (a[i := v]) idx vs) f) =
      sum_list (map2 (*) (a[i := v]) f) + sum_list (map2 (\<lambda>j w. (w - a[i := v] ! j) * f ! j) idx vs)"
    using Cons.prems news by (intro Cons.IH) auto
  also have "sum_list (map2 (*) (a[i := v]) f) = sum_list (map2 (*) a f) + (v - a ! i) * f ! i"
    using Cons.prems by (intro dot_update) auto
  finally show ?case using news same by (simp add: scatter_Cons)
qed

lemma dot_iadd_at:
  fixes a f :: "real list"
  assumes "distinct idx" "\<forall>i\<in>set idx. i < length a" "length vals = length idx" "length f = length a"
  shows "\<exists>b. iadd_at a idx vals = Inr b \<and> length b = length a \<and>
     sum_list (map2 (*) b f) = sum_list (map2 (*) a f) + sum_list (map2 (*) vals (map (\<lambda>i. f ! i) idx))"
proof -
  let ?news = "map2 (+) (map (\<lambda>i. a ! i) idx) vals"
  have 1: "iadd_at a idx vals = Inr (scatter a idx ?news)"
    using assms(2) by (simp add: iadd_at_def gather_ok)
  have "map2 (\<lambda>i v. (v - a ! i) * f ! i) idx ?news = map2 (*) vals (map (\<lambda>i. f ! i) idx)"
    using assms(3) by (intro nth_equalityI) auto
  then have "sum_list (map2 (*) (scatter a idx ?news) f) =
     sum_list (map2 (*) a f) + sum_list (map2 (*) vals (map (\<lambda>i. f ! i) idx))"
    using dot_scatter[OF assms(1,2) _ assms(4), of ?news] assms(3) by simp
  then show ?thesis using 1 by (simp add: length_scatter)
qed

lemma iadd_at_nonneg:
  assumes "iadd_at a idx vals = Inr b" "\<forall>x\<in>set a. 0 \<le> x" "\<forall>x\<in>set vals. 0 \<le> x"
  shows "\<forall>x\<in>set b. 0 \<le> x"
proof
  fix x assume x: "x \<in> set b"
  from assms(1) obtain old where old: "gather a idx = Inr old"
    and b: "b = scatter a idx (map2 (+) old vals)"
    by (auto simp: iadd_at_def split: sum.splits)
  from old have "\<forall>y\<in>set old. 0 \<le> y" using assms(2) by (auto simp: gather_Inr)
  then have "\<forall>y\<in>set (map2 (+) old vals). 0 \<le> y"
    using assms(3) by (auto simp: in_set_zip)
  with set_scatter[of x a idx "map2 (+) old vals"] x b assms(2) show "0 \<le> x" by blast
qed

subsection \<open>Interpolation stays between the smallest and the largest value\<close>

lemma convex_step:
  fixes lo hi y0 y1 x0 x1 x :: real
  assumes "x0 < x" "x < x1" "lo \<le> y0" "y0 \<le> hi" "lo \<le> y1" "y1 \<le> hi"
  shows "lo \<le> y0 + (y1 - y0) / (x1 - x0) * (x - x0) \<and> y0 + (y1 - y0) / (x1 - x0) * (x - x0) \<le> hi"
proof -
  define t where "t = (x - x0) / (x1 - x0)"
  have t: "0 \<le> t" "t \<le> 1" using assms(1,2) by (simp_all add: t_def)
  have eq: "y0 + (y1 - y0) / (x1 - x0) * (x - x0) = (1 - t) * y0 + t * y1"
    by (simp add: t_def algebra_simps diff_divide_distrib add_divide_distrib)
  have "(1 - t) * lo + t * lo \<le> (1 - t) * y0 + t * y1"
    using t assms(3,5) by (intro add_mono mult_left_mono) auto
  moreover have "(1 - t) * y0 + t * y1 \<le> (1 - t) * hi + t * hi"
    using t assms(4,6) by (intro add_mono mult_left_mono) auto
  ultimately show ?thesis unfolding eq by (simp add: algebra_simps)
qed

lemma interp1_bounds:
  "length fp = length xp \<Longrightarrow> xp \<noteq> [] \<Longrightarrow> \<forall>y\<in>set fp. lo \<le> y \<and> y \<le> hi \<Longrightarrow>
     lo \<le> interp1 xp fp x \<and> interp1 xp fp x \<le> hi"
proof (induction xp fp x rule: interp1.induct)
  case (1 x0 x1 xs y0 y1 ys x)
  show ?case
  proof (cases "x < x1")
    case True
    show ?thesis
    proof (cases "x \<le> x0")
      case True
      with \<open>x < x1\<close> "1.prems" show ?thesis by simp
    next
      case False
      then have "x0 < x" by simp
      from convex_step[OF this \<open>x < x1\<close>, of lo y0 hi y1] "1.prems" False \<open>x < x1\<close>
      show ?thesis by simp
    qed
  next
    case False
    with 1 show ?thesis by simp
  qed
qed simp_all

lemma interp1_nonneg:
  assumes "length fp = length xp" "xp \<noteq> []" "\<forall>y\<in>set fp. 0 \<le> y"
  shows "0 \<le> interp1 xp fp x"
proof -
  obtain hi where hi: "\<forall>y\<in>set fp. y \<le> hi"
    using finite_set[of fp] by (meson List.finite_set Max_ge)
  with assms interp1_bounds[of fp xp 0 hi x] show ?thesis by simp
qed

section \<open>One exposure on a valid input\<close>

lemma event_rows_props:
  "distinct (event_rows H c)" "\<forall>e\<in>set (event_rows H c). e < nrows (haz_intensity H)"
  by (simp_all add: event_rows_def)

lemma shapes_okD:
  assumes "shapes_ok E H"
  obtains cen where "exp_assigned E (haz_type H) = Some cen"
    "length cen = length (exp_value E)"
    "length (exp_deductible E) = length (exp_value E)"
    "length (exp_cover E) = length (exp_value E)"
    "length (exp_impact_id E) = length (exp_value E)"
    "\<forall>c\<in>set cen. c < int (ncols (haz_intensity H))"
    "ncols (haz_fraction H) = ncols (haz_intensity H)"
    "nrows (haz_fraction H) = nrows (haz_intensity H)"
    "length (haz_frequency H) = nrows (haz_intensity H)"
  using assms by (auto simp: shapes_ok_def list_all_iff split: option.splits)

lemma eligibleD:
  assumes "exp_assigned E (haz_type H) = Some cen" "i \<in> set (eligible E H)"
  shows "i < length (exp_value E)" "0 < exp_value E ! i" "0 \<le> cen ! i"
  using assms by (auto simp: eligible_def)

lemma assigned_atD:
  assumes "exp_assigned E (haz_type H) = Some cen" "assigned_at E H i"
  shows "i < length (exp_value E)" "0 \<le> cen ! i"
  using assms by (auto simp: assigned_at_def)

lemma eligible_assigned_at: "i \<in> set (eligible E H) \<Longrightarrow> assigned_at E H i"
  by (cases "exp_assigned E (haz_type H)") (simp_all add: eligible_def assigned_at_def)

lemma np_where_map2:
  "length xs = length ys \<Longrightarrow>
     np_where (map2 f xs ys) = filter (\<lambda>i. f (xs ! i) (ys ! i)) [0..<length xs]"
  by (auto simp: np_where_def intro!: filter_cong)

lemma select_exposures_eligible:
  assumes "exp_assigned E (haz_type H) = Some cen" "length cen = length (exp_value E)"
  shows "select_exposures E H = Inr (eligible E H)"
  using assms by (simp add: select_exposures_def broadcast2_def eligible_def np_where_map2)

lemma select_exposures_valid:
  assumes "shapes_ok E H"
  shows "select_exposures E H = Inr (eligible E H)"
proof -
  from assms obtain cen where cen: "exp_assigned E (haz_type H) = Some cen"
    "length cen = length (exp_value E)" by (rule shapes_okD)
  then show ?thesis by (rule select_exposures_eligible)
qed

lemma py_index_nonneg: "0 \<le> c \<Longrightarrow> c < int n \<Longrightarrow> py_index c n = Inr (nat c)"
  by (simp add: py_index_def)

lemma raw_impact_valid:
  assumes "shapes_ok E H" "imp_fun_ok f" "assigned_at E H i"
  shows "raw_impact i E H f =
     Inr (event_rows H (centroid E H i),
          map (\<lambda>e. cell (haz_intensity H) e (centroid E H i)) (event_rows H (centroid E H i)),
          spec_raw_impact E H f i)"
proof -
  from assms(1) obtain cen where cen: "exp_assigned E (haz_type H) = Some cen"
    "length cen = length (exp_value E)"
    "\<forall>c\<in>set cen. c < int (ncols (haz_intensity H))"
    "ncols (haz_fraction H) = ncols (haz_intensity H)"
    "nrows (haz_fraction H) = nrows (haz_intensity H)" by (rule shapes_okD)
  from assigned_atD[OF cen(1) assms(3)] have i: "i < length (exp_value E)" "0 \<le> cen ! i" by auto
  have c: "centroid E H i = nat (cen ! i)" by (simp add: centroid_def cen(1))
  have lt: "cen ! i < int (ncols (haz_intensity H))" using cen(2,3) i(1) by simp
  have idx: "py_index (cen ! i) (ncols (haz_intensity H)) = Inr (nat (cen ! i))"
    using i(2) lt by (rule py_index_nonneg)
  have g: "gather (map (\<lambda>e. cell (haz_fraction H) e (nat (cen ! i))) [0..<nrows (haz_fraction H)])
            (event_rows H (nat (cen ! i)))
         = Inr (map (\<lambda>e. cell (haz_fraction H) e (nat (cen ! i))) (event_rows H (nat (cen ! i))))"
    using event_rows_props(2)[of H "nat (cen ! i)"] cen(5)
    by (subst gather_ok) (auto intro!: map_cong)
  have m: "calc_mdr f xs = Inr (map (interp1 (if_intensity f) (if_mdr f)) xs)" for xs
    using assms(2) by (simp add: calc_mdr_def np_interp_def imp_fun_ok_def)
  show ?thesis
    using i(1) cen(2)
    by (simp add: raw_impact_def Let_def cen(1,4) idx g m c spec_raw_impact_def zip_map_map o_def
        map_zip_map map_zip_map2 zip_same_conv_map)
qed

lemma length_spec_raw_impact [simp]:
  "length (spec_raw_impact E H f i) = length (event_rows H (centroid E H i))"
  by (simp add: spec_raw_impact_def)

lemma length_clip_impact: "length paa = length imp \<Longrightarrow> length (clip_impact d c imp paa) = length imp"
  by (simp add: clip_impact_def)

lemma one_exposure_valid:
  assumes "shapes_ok E H" "imp_fun_ok f" "assigned_at E H i"
  shows "one_exposure i E H f =
     Inr (event_rows H (centroid E H i),
          if count_nonzero (spec_raw_impact E H f i) > 0 \<and>
             (exp_deductible E ! i > 0 \<or> exp_cover E ! i < exp_value E ! i)
          then clip_impact (exp_deductible E ! i) (exp_cover E ! i) (spec_raw_impact E H f i)
                 (map (\<lambda>e. interp1 (if_intensity f) (if_paa f)
                         (cell (haz_intensity H) e (centroid E H i)))
                    (event_rows H (centroid E H i)))
          else spec_raw_impact E H f i)"
proof -
  from assms(1) obtain cen where cen: "exp_assigned E (haz_type H) = Some cen"
    "length (exp_deductible E) = length (exp_value E)"
    "length (exp_cover E) = length (exp_value E)" by (rule shapes_okD)
  from assigned_atD[OF cen(1) assms(3)] have i: "i < length (exp_value E)" by auto
  have p: "np_interp xs (if_intensity f) (if_paa f) = Inr (map (interp1 (if_intensity f) (if_paa f)) xs)" for xs
    using assms(2) by (simp add: np_interp_def imp_fun_ok_def)
  show ?thesis
    using i cen(2,3)
    by (simp add: one_exposure_def raw_impact_valid[OF assms] p o_def)
qed

lemma one_exposure_length:
  assumes "shapes_ok E H" "imp_fun_ok f" "assigned_at E H i"
    "one_exposure i E H f = Inr (rows, imp)"
  shows "rows = event_rows H (centroid E H i)" "length imp = length rows"
  using assms(4) unfolding one_exposure_valid[OF assms(1-3)]
  by (auto simp: length_clip_impact split: if_splits)

lemma clip_impact_nonneg: "0 \<le> c \<Longrightarrow> \<forall>x\<in>set (clip_impact d c imp paa). 0 \<le> x"
  by (auto simp: clip_impact_def)

lemma clip_impact_le: "\<forall>x\<in>set (clip_impact d c imp paa). x \<le> c"
  by (auto simp: clip_impact_def)

lemma count_nonzero_0: "count_nonzero xs = 0 \<longleftrightarrow> (\<forall>x\<in>set xs. x = 0)"
  by (auto simp: count_nonzero_def filter_empty_conv)

lemma centroid_lt_ncols:
  assumes "shapes_ok E H" "assigned_at E H i"
  shows "centroid E H i < ncols (haz_intensity H)"
proof -
  from assms(1) obtain cen where cen: "exp_assigned E (haz_type H) = Some cen"
    "length cen = length (exp_value E)"
    "\<forall>c\<in>set cen. c < int (ncols (haz_intensity H))" by (rule shapes_okD)
  from assigned_atD[OF cen(1) assms(2)] have i: "i < length (exp_value E)" "0 \<le> cen ! i" by auto
  then have "cen ! i < int (ncols (haz_intensity H))" using cen(2,3) by simp
  then show ?thesis using i(2) by (simp add: centroid_def cen(1))
qed

lemma spec_raw_impact_nonneg:
  assumes "imp_fun_ok f" "0 \<le> exp_value E ! i" "\<forall>y\<in>set (if_mdr f). 0 \<le> y"
    "\<forall>e<nrows (haz_intensity H). 0 \<le> cell (haz_fraction H) e (centroid E H i)"
  shows "\<forall>x\<in>set (spec_raw_impact E H f i). 0 \<le> x"
proof -
  have m: "0 \<le> interp1 (if_intensity f) (if_mdr f) x" for x
    using assms(1,3) by (intro interp1_nonneg) (simp_all add: imp_fun_ok_def)
  show ?thesis
    using assms(2,4) m event_rows_props(2)[of H "centroid E H i"]
    by (auto simp: spec_raw_impact_def intro!: mult_nonneg_nonneg)
qed

lemma spec_raw_impact_le_value:
  assumes "imp_fun_ok f" "0 \<le> exp_value E ! i" "\<forall>y\<in>set (if_mdr f). 0 \<le> y \<and> y \<le> 1"
    "\<forall>e<nrows (haz_intensity H). 0 \<le> cell (haz_fraction H) e (centroid E H i)
        \<and> cell (haz_fraction H) e (centroid E H i) \<le> 1"
  shows "\<forall>x\<in>set (spec_raw_impact E H f i). x \<le> exp_value E ! i"
proof
  fix x assume "x \<in> set (spec_raw_impact E H f i)"
  then obtain e where e: "e \<in> set (event_rows H (centroid E H i))"
    and x: "x = exp_value E ! i
        * interp1 (if_intensity f) (if_mdr f) (cell (haz_intensity H) e (centroid E H i))
        * cell (haz_fraction H) e (centroid E H i)"
    by (auto simp: spec_raw_impact_def)
  let ?m = "interp1 (if_intensity f) (if_mdr f) (cell (haz_intensity H) e (centroid E H i))"
  let ?fr = "cell (haz_fraction H) e (centroid E H i)"
  have m: "0 \<le> ?m \<and> ?m \<le> 1"
    using assms(1,3) by (intro interp1_bounds) (simp_all add: imp_fun_ok_def)
  have fr: "0 \<le> ?fr \<and> ?fr \<le> 1" using assms(4) e event_rows_props(2)[of H "centroid E H i"] by simp
  have "exp_value E ! i * ?m \<le> exp_value E ! i * 1"
    using m assms(2) by (intro mult_left_mono) auto
  moreover have "exp_value E ! i * ?m * ?fr \<le> exp_value E ! i * ?m * 1"
    using m fr assms(2) by (intro mult_left_mono) auto
  ultimately show "x \<le> exp_value E ! i" unfolding x by simp
qed

lemma one_exposure_nonneg:
  assumes "shapes_ok E H" "imp_fun_ok f" "assigned_at E H i"
    and one: "one_exposure i E H f = Inr (rows, imp)"
    and v: "0 \<le> exp_value E ! i" and mdr: "\<forall>y\<in>set (if_mdr f). 0 \<le> y"
    and fr: "\<forall>e<nrows (haz_intensity H). 0 \<le> cell (haz_fraction H) e (centroid E H i)"
    and cov: "0 \<le> exp_cover E ! i"
  shows "\<forall>x\<in>set imp. 0 \<le> x"
proof -
  note raw = spec_raw_impact_nonneg[OF assms(2) v mdr fr]
  from one show ?thesis
    unfolding one_exposure_valid[OF assms(1-3)]
    using raw clip_impact_nonneg[OF cov] by (auto split: if_splits)
qed

lemma sum_list_map2_nonneg:
  fixes xs ys :: "real list"
  assumes "\<forall>x\<in>set xs. 0 \<le> x" "\<forall>y\<in>set ys. 0 \<le> y"
  shows "0 \<le> sum_list (map2 (*) xs ys)"
proof (rule sum_list_nonneg)
  fix z assume "z \<in> set (map2 (*) xs ys)"
  then obtain x y where "(x, y) \<in> set (zip xs ys)" "z = x * y" by auto
  then have "x \<in> set xs" "y \<in> set ys" "z = x * y"
    by (auto dest: set_zip_leftD set_zip_rightD)
  with assms show "0 \<le> z" by simp
qed



section \<open>The loop body and the two loops\<close>

lemma sum_list_update_real:
  fixes xs :: "real list"
  shows "i < length xs \<Longrightarrow> sum_list (xs[i := x]) = sum_list xs + (x - xs ! i)"
proof (induction xs arbitrary: i)
  case Nil
  then show ?case by simp
next
  case (Cons y ys)
  then show ?case by (cases i) auto
qed

lemma exposure_step_valid:
  assumes "shapes_ok E H" "imp_fun_ok f" "i \<in> set (eligible E H)" "state_ok E H s"
  obtains imp b where
    "one_exposure i E H f = Inr (event_rows H (centroid E H i), imp)"
    "length imp = length (event_rows H (centroid E H i))"
    "iadd_at (at_event s) (event_rows H (centroid E H i)) imp = Inr b"
    "length b = length (at_event s)"
    "sum_list (map2 (*) b (haz_frequency H)) =
       sum_list (map2 (*) (at_event s) (haz_frequency H))
       + sum_list (map2 (*) imp (map (\<lambda>e. haz_frequency H ! e) (event_rows H (centroid E H i))))"
    "exposure_step i E H f s =
       Inr (s\<lparr>at_event := b,
              eai_exp := (eai_exp s)[i := eai_exp s ! i
                + sum_list (map2 (*) imp (map (\<lambda>e. haz_frequency H ! e) (event_rows H (centroid E H i))))],
              tot_value := tot_value s + exp_value E ! i\<rparr>)"
proof -
  let ?rows = "event_rows H (centroid E H i)"
  from assms(1) obtain cen where cen: "exp_assigned E (haz_type H) = Some cen"
    "length (haz_frequency H) = nrows (haz_intensity H)" by (rule shapes_okD)
  from eligibleD[OF cen(1) assms(3)] have i: "i < length (exp_value E)" by auto
  from assms(4) have len: "length (at_event s) = nrows (haz_intensity H)"
    "length (eai_exp s) = length (exp_value E)" by (simp_all add: state_ok_def)
  note asg = eligible_assigned_at[OF assms(3)]
  obtain imp where one: "one_exposure i E H f = Inr (?rows, imp)"
    using one_exposure_valid[OF assms(1,2) asg] by simp
  have li: "length imp = length ?rows"
    using one_exposure_length(2)[OF assms(1,2) asg one] .
  have rows: "\<forall>e\<in>set ?rows. e < length (at_event s)"
    using event_rows_props(2)[of H "centroid E H i"] len(1) by simp
  from dot_iadd_at[OF event_rows_props(1) rows li, of "haz_frequency H"] cen(2) len(1)
  obtain b where b: "iadd_at (at_event s) ?rows imp = Inr b" "length b = length (at_event s)"
    "sum_list (map2 (*) b (haz_frequency H)) =
       sum_list (map2 (*) (at_event s) (haz_frequency H))
       + sum_list (map2 (*) imp (map (\<lambda>e. haz_frequency H ! e) ?rows))"
    by auto
  have g: "gather (haz_frequency H) ?rows = Inr (map (\<lambda>e. haz_frequency H ! e) ?rows)"
    using rows len(1) cen(2) by (intro gather_ok) simp
  have "exposure_step i E H f s =
       Inr (s\<lparr>at_event := b,
              eai_exp := (eai_exp s)[i := eai_exp s ! i
                + sum_list (map2 (*) imp (map (\<lambda>e. haz_frequency H ! e) ?rows))],
              tot_value := tot_value s + exp_value E ! i\<rparr>)"
    using i len(2) by (simp add: exposure_step_def one b(1) g)
  with one li b show ?thesis by (rule that)
qed

lemma exposure_step_tot:
  "exposure_step i E H f s = Inr s' \<Longrightarrow> tot_value s' = tot_value s + exp_value E ! i"
  by (auto simp: exposure_step_def split: sum.splits prod.splits if_splits)

lemma exposure_step_frame:
  "exposure_step i E H f s = Inr s' \<Longrightarrow>
     imp_unit s' = imp_unit s \<and> event_id s' = event_id s \<and> frequency s' = frequency s \<and>
     aai_agg s' = aai_agg s"
  by (auto simp: exposure_step_def split: sum.splits prod.splits if_splits)

lemma exposure_step_eai_other:
  "exposure_step i E H f s = Inr s' \<Longrightarrow> j \<noteq> i \<Longrightarrow> eai_exp s' ! j = eai_exp s ! j"
  by (auto simp: exposure_step_def split: sum.splits prod.splits if_splits)

lemma exposure_loop_rule:
  assumes "\<And>i s. i \<in> set is \<Longrightarrow> P s \<Longrightarrow> \<exists>s'. exposure_step i E H f s = Inr s' \<and> P s'"
    and "P s"
  shows "\<exists>s'. exposure_loop is E H f s = Inr s' \<and> P s'"
  using assms
proof (induction "is" arbitrary: s)
  case Nil
  then show ?case by simp
next
  case (Cons i rest)
  from Cons.prems(1)[of i s] Cons.prems(2)
  obtain s1 where s1: "exposure_step i E H f s = Inr s1" "P s1" by auto
  have "\<exists>s'. exposure_loop rest E H f s1 = Inr s' \<and> P s'"
    using Cons.prems(1) s1(2) by (intro Cons.IH) auto
  with s1(1) show ?case by simp
qed

lemma select_by_id:
  assumes "\<forall>i\<in>set idx. i < length ids"
  shows "gather ids idx = Inr (map (\<lambda>i. ids ! i) idx)"
    "gather idx (np_where (map (\<lambda>j. j = k) (map (\<lambda>i. ids ! i) idx)))
       = Inr (filter (\<lambda>i. ids ! i = k) idx)"
proof -
  show "gather ids idx = Inr (map (\<lambda>i. ids ! i) idx)" using assms by (rule gather_ok)
  have w: "np_where (map (\<lambda>j. j = k) (map (\<lambda>i. ids ! i) idx))
        = filter (\<lambda>p. ids ! (idx ! p) = k) [0..<length idx]"
    by (auto simp: np_where_def intro!: filter_cong)
  have "filter (\<lambda>i. ids ! i = k) idx = filter (\<lambda>i. ids ! i = k) (map (\<lambda>p. idx ! p) [0..<length idx])"
    by (simp add: map_nth)
  also have "\<dots> = map (\<lambda>p. idx ! p) (filter (\<lambda>p. ids ! (idx ! p) = k) [0..<length idx])"
    by (simp add: filter_map o_def)
  finally have eq: "map (\<lambda>p. idx ! p) (filter (\<lambda>p. ids ! (idx ! p) = k) [0..<length idx])
       = filter (\<lambda>i. ids ! i = k) idx" by simp
  show "gather idx (np_where (map (\<lambda>j. j = k) (map (\<lambda>i. ids ! i) idx)))
       = Inr (filter (\<lambda>i. ids ! i = k) idx)"
    unfolding w by (subst gather_ok) (auto simp: eq)
qed

lemma impact_func_loop_Cons:
  assumes "\<forall>i\<in>set idx. i < length (exp_impact_id E)"
  shows "impact_func_loop (f # fs) idx E H s =
     (case exposure_loop (filter (\<lambda>i. exp_impact_id E ! i = if_id f) idx) E H f s of
        Inl e \<Rightarrow> Inl e
      | Inr s' \<Rightarrow> impact_func_loop fs idx E H s')"
  using select_by_id(1)[OF assms] select_by_id(2)[OF assms, of "if_id f"] by (simp add: Let_def)

lemma impact_func_loop_rule:
  assumes "\<And>f i s. f \<in> set fs \<Longrightarrow> i \<in> set idx \<Longrightarrow> exp_impact_id E ! i = if_id f \<Longrightarrow> P s
             \<Longrightarrow> \<exists>s'. exposure_step i E H f s = Inr s' \<and> P s'"
    and "\<forall>i\<in>set idx. i < length (exp_impact_id E)"
    and "P s"
  shows "\<exists>s'. impact_func_loop fs idx E H s = Inr s' \<and> P s'"
  using assms(1,3)
proof (induction fs arbitrary: s)
  case Nil
  then show ?case by simp
next
  case (Cons f fs)
  have "\<exists>s1. exposure_loop (filter (\<lambda>i. exp_impact_id E ! i = if_id f) idx) E H f s = Inr s1 \<and> P s1"
    using Cons.prems by (intro exposure_loop_rule) auto
  then obtain s1 where s1: "exposure_loop (filter (\<lambda>i. exp_impact_id E ! i = if_id f) idx) E H f s = Inr s1"
    "P s1" by auto
  have "\<exists>s'. impact_func_loop fs idx E H s1 = Inr s' \<and> P s'"
    using Cons.prems(1) s1(2) by (intro Cons.IH) auto
  with s1(1) show ?case unfolding impact_func_loop_Cons[OF assms(2)] by simp
qed

lemma exposure_loop_tot:
  "exposure_loop is E H f s = Inr s' \<Longrightarrow>
     tot_value s' = tot_value s + sum_list (map (\<lambda>i. exp_value E ! i) is)"
proof (induction "is" arbitrary: s)
  case Nil
  then show ?case by simp
next
  case (Cons i rest)
  then obtain s1 where s1: "exposure_step i E H f s = Inr s1" "exposure_loop rest E H f s1 = Inr s'"
    by (auto split: sum.splits)
  from exposure_step_tot[OF s1(1)] Cons.IH[OF s1(2)] show ?case by simp
qed

lemma impact_func_loop_tot:
  assumes "\<forall>i\<in>set idx. i < length (exp_impact_id E)"
  shows "impact_func_loop fs idx E H s = Inr s' \<Longrightarrow>
     tot_value s' = tot_value s
       + sum_list (map (\<lambda>f. sum_list (map (\<lambda>i. exp_value E ! i)
           (filter (\<lambda>i. exp_impact_id E ! i = if_id f) idx))) fs)"
proof (induction fs arbitrary: s)
  case Nil
  then show ?case by simp
next
  case (Cons f fs)
  from Cons.prems obtain s1 where s1:
    "exposure_loop (filter (\<lambda>i. exp_impact_id E ! i = if_id f) idx) E H f s = Inr s1"
    "impact_func_loop fs idx E H s1 = Inr s'"
    unfolding impact_func_loop_Cons[OF assms] by (auto split: sum.splits)
  from exposure_loop_tot[OF s1(1)] Cons.IH[OF s1(2)] show ?case by simp
qed

lemma sum_filter_disj:
  fixes g :: "'a \<Rightarrow> real"
  assumes "\<forall>x\<in>set xs. \<not> (P x \<and> Q x)"
  shows "sum_list (map g (filter (\<lambda>x. P x \<or> Q x) xs))
       = sum_list (map g (filter P xs)) + sum_list (map g (filter Q xs))"
  using assms by (induction xs) auto

lemma sum_by_id:
  fixes g :: "nat \<Rightarrow> real"
  assumes "distinct (map if_id fs)"
  shows "sum_list (map (\<lambda>f. sum_list (map g (filter (\<lambda>i. ids ! i = if_id f) idx))) fs)
       = sum_list (map g (filter (\<lambda>i. ids ! i \<in> set (map if_id fs)) idx))"
  using assms
proof (induction fs)
  case Nil
  then show ?case by simp
next
  case (Cons f fs)
  have disj: "\<forall>i\<in>set idx. \<not> (ids ! i = if_id f \<and> ids ! i \<in> set (map if_id fs))"
    using Cons.prems by auto
  have "sum_list (map g (filter (\<lambda>i. ids ! i \<in> set (map if_id (f # fs))) idx))
      = sum_list (map g (filter (\<lambda>i. ids ! i = if_id f \<or> ids ! i \<in> set (map if_id fs)) idx))"
    by simp
  also have "\<dots> = sum_list (map g (filter (\<lambda>i. ids ! i = if_id f) idx))
      + sum_list (map g (filter (\<lambda>i. ids ! i \<in> set (map if_id fs)) idx))"
    using disj by (rule sum_filter_disj)
  finally show ?case using Cons by simp
qed

section \<open>The whole of \<open>calc\<close>\<close>

lemma dot_zero: "sum_list (map2 (*) (replicate n (0::real)) f) = 0"
proof (induction n arbitrary: f)
  case 0
  then show ?case by simp
next
  case (Suc n)
  then show ?case by (cases f) auto
qed

lemma state_ok_initialize: "state_ok E H (initialize self E H)"
  by (simp add: state_ok_def initialize_def)

lemma valid_inputD:
  assumes "valid_input E funcs H"
  shows "shapes_ok E H" "\<forall>f\<in>set (get_func funcs (haz_type H)). imp_fun_ok f"
    "distinct (map if_id (get_func funcs (haz_type H)))"
  using assms by (auto simp: valid_input_def list_all_iff)

lemma eligible_lt_ids:
  assumes "shapes_ok E H"
  shows "\<forall>i\<in>set (eligible E H). i < length (exp_impact_id E)"
proof -
  from assms obtain cen where cen: "exp_assigned E (haz_type H) = Some cen"
    "length (exp_impact_id E) = length (exp_value E)" by (rule shapes_okD)
  then show ?thesis by (auto simp: eligible_def)
qed

text \<open>
  The invariant rule for \<open>calc\<close> on a valid input: either nothing is selected and the
  initialised object is returned, or both loops run to their end, every step keeps the
  invariant, and line 190 sets \<^verbatim>\<open>aai_agg\<close>.
\<close>

lemma calc_rule:
  assumes E: "E = assign_if_needed assign E0 H"
    and valid: "valid_input E funcs H"
    and init: "P (initialize self E H)"
    and step: "\<And>f i s s'. f \<in> set (get_func funcs (haz_type H)) \<Longrightarrow> imp_fun_ok f \<Longrightarrow>
        i \<in> set (eligible E H) \<Longrightarrow> exp_impact_id E ! i = if_id f \<Longrightarrow> state_ok E H s \<Longrightarrow> P s \<Longrightarrow>
        exposure_step i E H f s = Inr s' \<Longrightarrow> P s'"
  shows "(eligible E H = [] \<and> calc assign self E0 funcs H = Inr (initialize self E H)) \<or>
     (eligible E H \<noteq> [] \<and>
       (\<exists>s. impact_func_loop (get_func funcs (haz_type H)) (eligible E H) E H (initialize self E H) = Inr s \<and>
            state_ok E H s \<and> P s \<and>
            calc assign self E0 funcs H =
              Inr (s\<lparr>aai_agg := sum_list (map2 (*) (at_event s) (haz_frequency H))\<rparr>)))"
proof (cases "eligible E H = []")
  case True
  then show ?thesis
    using select_exposures_valid[OF valid_inputD(1)[OF valid]]
    by (simp add: calc_def E[symmetric])
next
  case False
  note sh = valid_inputD(1)[OF valid]
  let ?Q = "\<lambda>s. state_ok E H s \<and> P s"
  have "\<exists>s. impact_func_loop (get_func funcs (haz_type H)) (eligible E H) E H (initialize self E H) = Inr s \<and> ?Q s"
  proof (rule impact_func_loop_rule)
    show "\<forall>i\<in>set (eligible E H). i < length (exp_impact_id E)" by (rule eligible_lt_ids[OF sh])
    show "?Q (initialize self E H)" using init by (simp add: state_ok_initialize)
  next
    fix f i s
    assume f: "f \<in> set (get_func funcs (haz_type H))" and i: "i \<in> set (eligible E H)"
      and id: "exp_impact_id E ! i = if_id f" and Q: "?Q s"
    have fok: "imp_fun_ok f" using valid_inputD(2)[OF valid] f by simp
    from Q have sok: "state_ok E H s" by simp
    obtain imp b where st:
      "length b = length (at_event s)"
      "exposure_step i E H f s =
       Inr (s\<lparr>at_event := b,
              eai_exp := (eai_exp s)[i := eai_exp s ! i
                + sum_list (map2 (*) imp (map (\<lambda>e. haz_frequency H ! e) (event_rows H (centroid E H i))))],
              tot_value := tot_value s + exp_value E ! i\<rparr>)"
      using exposure_step_valid[OF sh fok i sok] by metis
    let ?s' = "s\<lparr>at_event := b,
              eai_exp := (eai_exp s)[i := eai_exp s ! i
                + sum_list (map2 (*) imp (map (\<lambda>e. haz_frequency H ! e) (event_rows H (centroid E H i))))],
              tot_value := tot_value s + exp_value E ! i\<rparr>"
    have "state_ok E H ?s'" using sok st(1) by (simp add: state_ok_def)
    moreover have "P ?s'" using step[OF f fok i id sok _ st(2)] Q by simp
    ultimately show "\<exists>s'. exposure_step i E H f s = Inr s' \<and> ?Q s'" using st(2) by simp
  qed
  then obtain s where s: "impact_func_loop (get_func funcs (haz_type H)) (eligible E H) E H (initialize self E H) = Inr s"
    "state_ok E H s" "P s" by auto
  from sh obtain cen where "length (haz_frequency H) = nrows (haz_intensity H)" by (rule shapes_okD)
  with s(2) have "length (at_event s) = length (haz_frequency H)" by (simp add: state_ok_def)
  then have "calc assign self E0 funcs H =
              Inr (s\<lparr>aai_agg := sum_list (map2 (*) (at_event s) (haz_frequency H))\<rparr>)"
    using False select_exposures_valid[OF sh] s(1)
    by (simp add: calc_def E[symmetric] broadcast2_def)
  with False s show ?thesis by auto
qed

lemma calc_empty:
  assumes E: "E = assign_if_needed assign E0 H"
    and cen: "exp_assigned E (haz_type H) = Some cen" "length cen = length (exp_value E)"
    and emp: "eligible E H = []"
  shows "calc assign self E0 funcs H = Inr (initialize self E H)"
  using select_exposures_eligible[OF cen] emp by (simp add: calc_def E[symmetric])

lemma initialize_aai_agg: "aai_agg (initialize self E H) = aai_agg self"
  by (simp add: initialize_def)

lemma set_eligible:
  assumes "exp_assigned E (haz_type H) = Some cen"
  shows "set (eligible E H) = {i. i < length (exp_value E) \<and> 0 < exp_value E ! i \<and> 0 \<le> cen ! i}"
  using assms by (auto simp: eligible_def)

lemma eligible_all_zero:
  assumes "list_all (\<lambda>v. v = 0) (exp_value E)"
  shows "eligible E H = []"
proof (cases "exp_assigned E (haz_type H)")
  case None
  then show ?thesis by (simp add: eligible_def)
next
  case (Some cen)
  have "\<forall>i<length (exp_value E). exp_value E ! i = 0"
    using assms by (simp add: list_all_length)
  then show ?thesis using Some by (auto simp: eligible_def filter_empty_conv)
qed

lemma event_rows_empty_iff:
  "event_rows H c = [] \<longleftrightarrow> (\<forall>e<nrows (haz_intensity H). cell (haz_intensity H) e c = 0)"
  by (auto simp: event_rows_def filter_empty_conv)

lemma calc_tot_value:
  assumes E: "E = assign_if_needed assign E0 H" and valid: "valid_input E funcs H"
  shows "\<exists>r. calc assign self E0 funcs H = Inr r \<and>
     tot_value r = sum_list (map (\<lambda>i. exp_value E ! i)
       (filter (\<lambda>i. exp_impact_id E ! i \<in> set (map if_id (get_func funcs (haz_type H))))
          (eligible E H)))"
proof -
  let ?fs = "get_func funcs (haz_type H)"
  have "(eligible E H = [] \<and> calc assign self E0 funcs H = Inr (initialize self E H)) \<or>
     (eligible E H \<noteq> [] \<and>
       (\<exists>s. impact_func_loop ?fs (eligible E H) E H (initialize self E H) = Inr s \<and>
            state_ok E H s \<and> True \<and>
            calc assign self E0 funcs H =
              Inr (s\<lparr>aai_agg := sum_list (map2 (*) (at_event s) (haz_frequency H))\<rparr>)))"
    by (rule calc_rule[where P = "\<lambda>s. True", OF E valid]) simp_all
  then consider (empty) "eligible E H = []" "calc assign self E0 funcs H = Inr (initialize self E H)"
    | (loop) s where "impact_func_loop ?fs (eligible E H) E H (initialize self E H) = Inr s"
        "calc assign self E0 funcs H =
           Inr (s\<lparr>aai_agg := sum_list (map2 (*) (at_event s) (haz_frequency H))\<rparr>)"
    by blast
  then show ?thesis
  proof cases
    case empty
    then show ?thesis by (simp add: initialize_def)
  next
    case loop
    have "tot_value s = tot_value (initialize self E H)
       + sum_list (map (\<lambda>f. sum_list (map (\<lambda>i. exp_value E ! i)
           (filter (\<lambda>i. exp_impact_id E ! i = if_id f) (eligible E H)))) ?fs)"
      using loop(1) by (rule impact_func_loop_tot[OF eligible_lt_ids[OF valid_inputD(1)[OF valid]]])
    also have "\<dots> = sum_list (map (\<lambda>i. exp_value E ! i)
       (filter (\<lambda>i. exp_impact_id E ! i \<in> set (map if_id ?fs)) (eligible E H)))"
      using sum_by_id[OF valid_inputD(3)[OF valid], of "\<lambda>i. exp_value E ! i" "exp_impact_id E" "eligible E H"]
      by (simp add: initialize_def)
    finally show ?thesis using loop(2) by simp
  qed
qed

lemma calc_eai_zero:
  assumes E: "E = assign_if_needed assign E0 H" and valid: "valid_input E funcs H"
    and j: "j \<in> set (eligible E H)"
    and skip: "exp_impact_id E ! j \<notin> set (map if_id (get_func funcs (haz_type H))) \<or>
               event_rows H (centroid E H j) = []"
  shows "\<exists>r. calc assign self E0 funcs H = Inr r \<and> eai_exp r ! j = 0"
proof -
  let ?fs = "get_func funcs (haz_type H)"
  let ?P = "\<lambda>s. eai_exp s ! j = 0"
  note sh = valid_inputD(1)[OF valid]
  from sh obtain cen where cen: "exp_assigned E (haz_type H) = Some cen" by (rule shapes_okD)
  have jn: "j < length (exp_value E)" using eligibleD(1)[OF cen j] .
  have init: "?P (initialize self E H)" using jn by (simp add: initialize_def)
  have step: "?P s'"
    if a0: "f \<in> set ?fs" and a1: "imp_fun_ok f"
      and a2: "i \<in> set (eligible E H)" and a2': "exp_impact_id E ! i = if_id f"
      and a3: "state_ok E H s" and a4: "?P s"
      and a5: "exposure_step i E H f s = Inr s'" for f i s s'
  proof (cases "i = j")
    case False
    then show ?thesis using exposure_step_eai_other[OF a5, of j] a4 by simp
  next
    case True
    with a0 a2' skip have rows: "event_rows H (centroid E H j) = []" by auto
    obtain imp b where st:
      "length imp = length (event_rows H (centroid E H i))"
      "exposure_step i E H f s =
       Inr (s\<lparr>at_event := b,
              eai_exp := (eai_exp s)[i := eai_exp s ! i
                + sum_list (map2 (*) imp (map (\<lambda>e. haz_frequency H ! e) (event_rows H (centroid E H i))))],
              tot_value := tot_value s + exp_value E ! i\<rparr>)"
      using exposure_step_valid[OF sh a1 a2 a3] by metis
    from a3 jn have "j < length (eai_exp s)" by (simp add: state_ok_def)
    then show ?thesis using st a5 a4 True rows by auto
  qed
  have "(eligible E H = [] \<and> calc assign self E0 funcs H = Inr (initialize self E H)) \<or>
     (eligible E H \<noteq> [] \<and>
       (\<exists>s. impact_func_loop ?fs (eligible E H) E H (initialize self E H) = Inr s \<and>
            state_ok E H s \<and> ?P s \<and>
            calc assign self E0 funcs H =
              Inr (s\<lparr>aai_agg := sum_list (map2 (*) (at_event s) (haz_frequency H))\<rparr>)))"
    by (rule calc_rule[where P = ?P, OF E valid init]) (rule step; assumption)
  then show ?thesis using init by auto
qed

section \<open>The frequency curve\<close>

lemma is_argsortD:
  assumes "is_argsort a idx"
  shows "set idx = {0..<length a}" "length idx = length a" "distinct idx"
    "sorted (map (\<lambda>i. a ! i) idx)" "mset (map (\<lambda>i. a ! i) idx) = mset a"
proof -
  from assms have m: "mset idx = mset [0..<length a]" and s: "sorted (map (\<lambda>i. a ! i) idx)"
    by (simp_all add: is_argsort_def)
  from m have "set idx = set [0..<length a]" by (rule mset_eq_setD)
  then show "set idx = {0..<length a}" by simp
  from m have "length idx = length [0..<length a]" by (rule mset_eq_length)
  then show "length idx = length a" by simp
  from m have "distinct idx = distinct [0..<length a]" by (rule mset_eq_imp_distinct_iff)
  then show "distinct idx" by simp
  show "sorted (map (\<lambda>i. a ! i) idx)" by (rule s)
  have "mset (map (\<lambda>i. a ! i) idx) = image_mset (\<lambda>i. a ! i) (mset idx)" by simp
  also have "\<dots> = mset (map (\<lambda>i. a ! i) [0..<length a])" by (simp add: m)
  also have "\<dots> = mset a" by (simp add: map_nth)
  finally show "mset (map (\<lambda>i. a ! i) idx) = mset a" .
qed

lemma length_cumsum_from: "length (cumsum_from acc xs) = length xs"
  by (induction xs arbitrary: acc) auto

lemma cumsum_from_ge:
  "\<forall>x\<in>set xs. 0 \<le> x \<Longrightarrow> y \<in> set (cumsum_from acc xs) \<Longrightarrow> acc \<le> y"
proof (induction xs arbitrary: acc)
  case Nil
  then show ?case by simp
next
  case (Cons x xs)
  then show ?case by fastforce
qed

lemma sorted_cumsum_from: "\<forall>x\<in>set xs. 0 \<le> x \<Longrightarrow> sorted (cumsum_from acc xs)"
proof (induction xs arbitrary: acc)
  case Nil
  then show ?case by simp
next
  case (Cons x xs)
  then show ?case using cumsum_from_ge[of xs _ "acc + x"] by auto
qed

lemma np_recip_antitone: "0 \<le> a \<Longrightarrow> a \<le> b \<Longrightarrow> np_le (np_recip b) (np_recip a)"
  by (auto simp: np_recip_def frac_le)

lemma return_per_sorted:
  assumes "\<forall>x\<in>set xs. 0 \<le> x"
  shows "sorted_wrt (\<lambda>a b. np_le b a) (map np_recip (cumsum xs))"
proof -
  have s: "sorted (cumsum xs)" unfolding cumsum_def using assms by (rule sorted_cumsum_from)
  have g: "\<forall>y\<in>set (cumsum xs). 0 \<le> y"
    unfolding cumsum_def using cumsum_from_ge[OF assms] by blast
  have "sorted_wrt (\<lambda>x y. np_le (np_recip y) (np_recip x)) (cumsum xs)"
    using s by (rule sorted_wrt_mono_rel[rotated]) (use g in \<open>auto intro: np_recip_antitone\<close>)
  then show ?thesis by (simp add: sorted_wrt_map)
qed

lemma calc_freq_curve_valid:
  assumes srt: "is_argsort (at_event self) (srt (at_event self))"
    and len: "length (at_event self) \<le> length (frequency self)"
  shows "calc_freq_curve srt self =
     Inr \<lparr>return_per = map np_recip (cumsum (map (\<lambda>i. frequency self ! i) (rev (srt (at_event self))))),
          impact = map (\<lambda>i. at_event self ! i) (rev (srt (at_event self))),
          ifc_unit = imp_unit self\<rparr>"
proof -
  let ?idx = "rev (srt (at_event self))"
  have a: "\<forall>i\<in>set ?idx. i < length (at_event self)"
    using is_argsortD(1)[OF srt] by simp
  then have f: "\<forall>i\<in>set ?idx. i < length (frequency self)" using len by auto
  have "gather (frequency self) ?idx = Inr (map (\<lambda>i. frequency self ! i) ?idx)"
    using f by (rule gather_ok)
  moreover have "gather (at_event self) ?idx = Inr (map (\<lambda>i. at_event self ! i) ?idx)"
    using a by (rule gather_ok)
  ultimately show ?thesis by (simp add: calc_freq_curve_def Let_def)
qed

section \<open>The example, evaluated\<close>

lemma upt_2: "[0..<2] = [0, 1]"
  by (simp add: upt_rec)

lemma ex_exposures_simps:
  "exp_value ex_exposures = [100]" "exp_deductible ex_exposures = [0]"
  "exp_cover ex_exposures = [100]" "exp_impact_id ex_exposures = [1]"
  "exp_assigned ex_exposures ''TC'' = Some [0]" "exp_value_unit ex_exposures = ''USD''"
  by (simp_all add: ex_exposures_def)

lemma ex_hazard_simps:
  "haz_type ex_hazard = ''TC''" "haz_event_id ex_hazard = [1, 2]"
  "haz_frequency ex_hazard = [1 / 10, 1 / 100]"
  "nrows (haz_intensity ex_hazard) = 2" "ncols (haz_intensity ex_hazard) = 1"
  "cell (haz_intensity ex_hazard) e c = [[5], [10]] ! e ! c"
  "nrows (haz_fraction ex_hazard) = 2" "ncols (haz_fraction ex_hazard) = 1"
  "cell (haz_fraction ex_hazard) e c = 1"
  by (simp_all add: ex_hazard_def)

lemma ex_imp_fun_simps:
  "if_id ex_imp_fun = 1" "if_intensity ex_imp_fun = [0, 10]" "if_mdr ex_imp_fun = [0, 1]"
  "if_paa ex_imp_fun = [0, 1]"
  by (simp_all add: ex_imp_fun_def)

lemma ex_funcs_TC: "get_func ex_funcs ''TC'' = [ex_imp_fun]"
  by (simp add: get_func_def ex_funcs_def)

lemma ex_assigned: "assign_if_needed no_assign ex_exposures ex_hazard = ex_exposures"
  by (simp add: assign_if_needed_def ex_exposures_simps ex_hazard_simps)

lemma ex_valid: "valid_input ex_exposures ex_funcs ex_hazard"
  by (simp add: valid_input_def shapes_ok_def imp_fun_ok_def ex_funcs_TC
      ex_exposures_simps ex_hazard_simps ex_imp_fun_simps)

lemma ex_one_exposure:
  "one_exposure 0 ex_exposures ex_hazard ex_imp_fun = Inr ([0, 1], [50, 100])"
  by (simp add: one_exposure_def raw_impact_def event_rows_def py_index_def gather_def
      calc_mdr_def np_interp_def count_nonzero_def upt_2
      ex_exposures_simps ex_hazard_simps ex_imp_fun_simps)

lemma ex_initialize:
  "initialize Impact_init ex_exposures ex_hazard =
     \<lparr>imp_unit = ''USD'', event_id = [1, 2], frequency = [1 / 10, 1 / 100], at_event = [0, 0],
      eai_exp = [0], tot_value = 0, aai_agg = 0\<rparr>"
  by (simp add: initialize_def Impact_init_def ex_exposures_simps ex_hazard_simps
      numeral_2_eq_2)

lemma ex_step:
  "exposure_step 0 ex_exposures ex_hazard ex_imp_fun
     \<lparr>imp_unit = ''USD'', event_id = [1, 2], frequency = [1 / 10, 1 / 100], at_event = [0, 0],
      eai_exp = [0], tot_value = 0, aai_agg = 0\<rparr>
   = Inr \<lparr>imp_unit = ''USD'', event_id = [1, 2], frequency = [1 / 10, 1 / 100],
      at_event = [50, 100], eai_exp = [6], tot_value = 100, aai_agg = 0\<rparr>"
  by (simp add: exposure_step_def ex_one_exposure iadd_at_def gather_def scatter_def
      ex_exposures_simps ex_hazard_simps)

lemma ex_select: "select_exposures ex_exposures ex_hazard = Inr [0]"
  by (simp add: select_exposures_def broadcast2_def np_where_def
      ex_exposures_simps ex_hazard_simps)

lemma ex_calc: "calc no_assign Impact_init ex_exposures ex_funcs ex_hazard = Inr ex_impact"
  by (simp add: calc_def ex_assigned ex_select ex_initialize ex_funcs_TC ex_step
      gather_def np_where_def broadcast2_def ex_impact_def
      ex_exposures_simps ex_hazard_simps ex_imp_fun_simps)

lemma ex_argsort_stable: "argsort_stable [50, 100] = [0, 1]"
  by (simp add: argsort_stable_def upt_2)

lemma argsort_stable_is_argsort: "is_argsort a (argsort_stable a)"
  by (simp add: is_argsort_def argsort_stable_def)

lemma argsort_two:
  assumes "is_argsort [a, b] idx" "a < b"
  shows "idx = [0, 1]"
proof -
  from assms(1) have m: "mset idx = mset [0, 1::nat]" and s: "sorted (map (\<lambda>i. [a, b] ! i) idx)"
    by (simp_all add: is_argsort_def upt_2)
  have "length idx = length [0, 1::nat]" using m by (rule mset_eq_length)
  then obtain x y where idx: "idx = [x, y]"
    by (auto simp: length_Suc_conv)
  have "set idx = set [0, 1::nat]" using m by (rule mset_eq_setD)
  then have st: "{x, y} = {0, 1}" using idx by simp
  have "distinct idx = distinct [0, 1::nat]" using m by (rule mset_eq_imp_distinct_iff)
  then have "x \<noteq> y" using idx by simp
  with st have "(x = 0 \<and> y = 1) \<or> (x = 1 \<and> y = 0)" by (auto simp: doubleton_eq_iff)
  with s idx assms(2) show ?thesis by auto
qed

lemma ex_freq_curve:
  assumes "is_argsort (at_event ex_impact) (srt (at_event ex_impact))"
  shows "calc_freq_curve srt ex_impact =
     Inr \<lparr>return_per = [Fin 100, Fin (100 / 11)], impact = [100, 50], ifc_unit = ''USD''\<rparr>"
proof -
  have "srt [50, 100] = [0, 1]" using assms by (intro argsort_two[of 50 100]) (simp_all add: ex_impact_def)
  then show ?thesis
    by (simp add: calc_freq_curve_def ex_impact_def gather_def cumsum_def np_recip_def)
qed

lemma ex0_simps:
  "exp_value ex0_exposures = [0]" "exp_assigned ex0_exposures ''TC'' = Some [0]"
  "exp_value_unit ex0_exposures = ''USD''"
  by (simp_all add: ex0_exposures_def ex_exposures_def)

lemma ex0_assigned: "assign_if_needed no_assign ex0_exposures ex_hazard = ex0_exposures"
  by (simp add: assign_if_needed_def ex0_simps ex_hazard_simps)

lemma ex4_simps:
  "exp_value ex4_exposures = [100]" "exp_deductible ex4_exposures = [0]"
  "exp_cover ex4_exposures = [100]" "exp_impact_id ex4_exposures = [2]"
  "exp_assigned ex4_exposures ''TC'' = Some [0]" "exp_value_unit ex4_exposures = ''USD''"
  by (simp_all add: ex4_exposures_def ex_exposures_def)

lemma ex4_assigned: "assign_if_needed no_assign ex4_exposures ex_hazard = ex4_exposures"
  by (simp add: assign_if_needed_def ex4_simps ex_hazard_simps)

lemma ex4_valid: "valid_input ex4_exposures ex_funcs ex_hazard"
  by (simp add: valid_input_def shapes_ok_def imp_fun_ok_def ex_funcs_TC
      ex4_simps ex_hazard_simps ex_imp_fun_simps)

lemma ex4_eligible: "eligible ex4_exposures ex_hazard = [0]"
  by (simp add: eligible_def ex4_simps ex_hazard_simps)

lemma ex4_select: "select_exposures ex4_exposures ex_hazard = Inr [0]"
  by (simp add: select_exposures_def broadcast2_def np_where_def ex4_simps ex_hazard_simps)

lemma ex4_initialize:
  "initialize Impact_init ex4_exposures ex_hazard =
     \<lparr>imp_unit = ''USD'', event_id = [1, 2], frequency = [1 / 10, 1 / 100], at_event = [0, 0],
      eai_exp = [0], tot_value = 0, aai_agg = 0\<rparr>"
  by (simp add: initialize_def Impact_init_def ex4_simps ex_hazard_simps numeral_2_eq_2)

lemma ex2_exposures_simps:
  "exp_value ex2_exposures = [100, 40]" "exp_deductible ex2_exposures = [0, 0]"
  "exp_cover ex2_exposures = [100, 40]" "exp_impact_id ex2_exposures = [1, 1]"
  "exp_assigned ex2_exposures ''TC'' = Some [0, 1]" "exp_value_unit ex2_exposures = ''USD''"
  by (simp_all add: ex2_exposures_def)

lemma ex2_hazard_simps:
  "haz_type ex2_hazard = ''TC''" "haz_event_id ex2_hazard = [1, 2]"
  "haz_frequency ex2_hazard = [1 / 10, 1 / 100]"
  "nrows (haz_intensity ex2_hazard) = 2" "ncols (haz_intensity ex2_hazard) = 2"
  "cell (haz_intensity ex2_hazard) e c = [[5, 0], [10, 0]] ! e ! c"
  "nrows (haz_fraction ex2_hazard) = 2" "ncols (haz_fraction ex2_hazard) = 2"
  "cell (haz_fraction ex2_hazard) e c = 1"
  by (simp_all add: ex2_hazard_def)

lemma ex2_assigned: "assign_if_needed no_assign ex2_exposures ex2_hazard = ex2_exposures"
  by (simp add: assign_if_needed_def ex2_exposures_simps ex2_hazard_simps)

lemma ex2_valid: "valid_input ex2_exposures ex_funcs ex2_hazard"
  by (simp add: valid_input_def shapes_ok_def imp_fun_ok_def ex_funcs_TC
      ex2_exposures_simps ex2_hazard_simps ex_imp_fun_simps)

lemma ex2_eligible: "eligible ex2_exposures ex2_hazard = [0, 1]"
  by (simp add: eligible_def ex2_exposures_simps ex2_hazard_simps upt_2)

lemma ex2_zero_column:
  "\<forall>e<nrows (haz_intensity ex2_hazard).
     cell (haz_intensity ex2_hazard) e (centroid ex2_exposures ex2_hazard 1) = 0"
  by (simp add: centroid_def ex2_exposures_simps ex2_hazard_simps less_Suc_eq numeral_2_eq_2)

lemma exc_simps:
  "exp_value exc_exposures = [100]" "exp_deductible exc_exposures = [10]"
  "exp_cover exc_exposures = [60]" "exp_impact_id exc_exposures = [1]"
  "exp_assigned exc_exposures ''TC'' = Some [0]" "exp_value_unit exc_exposures = ''USD''"
  by (simp_all add: exc_exposures_def ex_exposures_def)

lemma exc_assigned: "assign_if_needed no_assign exc_exposures ex_hazard = exc_exposures"
  by (simp add: assign_if_needed_def exc_simps ex_hazard_simps)

lemma exc_shapes: "shapes_ok exc_exposures ex_hazard"
  by (simp add: shapes_ok_def exc_simps ex_hazard_simps)

lemma ex_imp_fun_ok: "imp_fun_ok ex_imp_fun"
  by (simp add: imp_fun_ok_def ex_imp_fun_simps)

lemma exc_valid: "valid_input exc_exposures ex_funcs ex_hazard"
  by (simp add: valid_input_def exc_shapes ex_imp_fun_ok ex_funcs_TC ex_hazard_simps)

lemma exc_one_exposure:
  "one_exposure 0 exc_exposures ex_hazard ex_imp_fun = Inr ([0, 1], [45, 60])"
  by (simp add: one_exposure_def raw_impact_def event_rows_def py_index_def gather_def
      calc_mdr_def np_interp_def count_nonzero_def clip_impact_def upt_2
      exc_simps ex_hazard_simps ex_imp_fun_simps)

lemma exm_simps:
  "if_id exm_imp_fun = 1" "if_intensity exm_imp_fun = [0, 10]" "if_mdr exm_imp_fun = [0, 2]"
  "if_paa exm_imp_fun = [0, 1]"
  by (simp_all add: exm_imp_fun_def ex_imp_fun_def)

lemma exc_assigned_at: "assigned_at exc_exposures ex_hazard 0"
  by (simp add: assigned_at_def exc_simps ex_hazard_simps)



lemma upt_3: "[0..<3] = [0, 1, 2]"
  by (simp add: upt_rec)





lemma exf_simps:
  "at_event exf_impact = [50, 100, 70]" "frequency exf_impact = [1 / 10, 0, 1 / 20]"
  "imp_unit exf_impact = ''USD''"
  by (simp_all add: exf_impact_def)

lemma exf_argsort: "argsort_stable [50, 100, 70] = [0, 2, 1]"
  by (simp add: argsort_stable_def upt_3)

lemma exf_freq_curve:
  "calc_freq_curve argsort_stable exf_impact =
     Inr \<lparr>return_per = [PInf, Fin 20, Fin (20 / 3)], impact = [100, 70, 50], ifc_unit = ''USD''\<rparr>"
  by (simp add: calc_freq_curve_def exf_simps exf_argsort gather_def cumsum_def np_recip_def)

lemma exn_simps:
  "exp_value exn_exposures = [100]" "exp_deductible exn_exposures = [0]"
  "exp_cover exn_exposures = [- 5]" "exp_impact_id exn_exposures = [1]"
  "exp_assigned exn_exposures ''TC'' = Some [0]" "exp_value_unit exn_exposures = ''USD''"
  by (simp_all add: exn_exposures_def ex_exposures_def)

lemma exg_simps:
  "haz_type exg_hazard = ''TC''" "haz_event_id exg_hazard = [1, 2]"
  "haz_frequency exg_hazard = [1 / 10, 1 / 100]"
  "nrows (haz_intensity exg_hazard) = 2" "ncols (haz_intensity exg_hazard) = 1"
  "cell (haz_intensity exg_hazard) e c = [[5], [10]] ! e ! c"
  "nrows (haz_fraction exg_hazard) = 2" "ncols (haz_fraction exg_hazard) = 1"
  "cell (haz_fraction exg_hazard) e c = - 1"
  by (simp_all add: exg_hazard_def ex_hazard_def)

lemma exn_assigned: "assign_if_needed no_assign exn_exposures ex_hazard = exn_exposures"
  by (simp add: assign_if_needed_def exn_simps ex_hazard_simps)

lemma exg_assigned: "assign_if_needed no_assign ex_exposures exg_hazard = ex_exposures"
  by (simp add: assign_if_needed_def ex_exposures_simps exg_simps)

lemma exn_valid: "valid_input exn_exposures ex_funcs ex_hazard"
  by (simp add: valid_input_def shapes_ok_def ex_imp_fun_ok ex_funcs_TC exn_simps ex_hazard_simps)

lemma exg_valid: "valid_input ex_exposures ex_funcs exg_hazard"
  by (simp add: valid_input_def shapes_ok_def ex_imp_fun_ok ex_funcs_TC ex_exposures_simps
      exg_simps)

lemma exn_one_exposure:
  "one_exposure 0 exn_exposures ex_hazard ex_imp_fun = Inr ([0, 1], [- 5, - 5])"
  by (simp add: one_exposure_def raw_impact_def event_rows_def py_index_def gather_def
      calc_mdr_def np_interp_def count_nonzero_def clip_impact_def upt_2
      exn_simps ex_hazard_simps ex_imp_fun_simps)

lemma exg_one_exposure:
  "one_exposure 0 ex_exposures exg_hazard ex_imp_fun = Inr ([0, 1], [- 50, - 100])"
  by (simp add: one_exposure_def raw_impact_def event_rows_def py_index_def gather_def
      calc_mdr_def np_interp_def count_nonzero_def upt_2
      ex_exposures_simps exg_simps ex_imp_fun_simps)

lemma exn_select: "select_exposures exn_exposures ex_hazard = Inr [0]"
  by (simp add: select_exposures_def broadcast2_def np_where_def exn_simps ex_hazard_simps)

lemma exg_select: "select_exposures ex_exposures exg_hazard = Inr [0]"
  by (simp add: select_exposures_def broadcast2_def np_where_def ex_exposures_simps exg_simps)

lemma exn_initialize:
  "initialize Impact_init exn_exposures ex_hazard =
     \<lparr>imp_unit = ''USD'', event_id = [1, 2], frequency = [1 / 10, 1 / 100], at_event = [0, 0],
      eai_exp = [0], tot_value = 0, aai_agg = 0\<rparr>"
  by (simp add: initialize_def Impact_init_def exn_simps ex_hazard_simps numeral_2_eq_2)

lemma exg_initialize:
  "initialize Impact_init ex_exposures exg_hazard =
     \<lparr>imp_unit = ''USD'', event_id = [1, 2], frequency = [1 / 10, 1 / 100], at_event = [0, 0],
      eai_exp = [0], tot_value = 0, aai_agg = 0\<rparr>"
  by (simp add: initialize_def Impact_init_def ex_exposures_simps exg_simps numeral_2_eq_2)

lemma exn_step:
  "exposure_step 0 exn_exposures ex_hazard ex_imp_fun
     \<lparr>imp_unit = ''USD'', event_id = [1, 2], frequency = [1 / 10, 1 / 100], at_event = [0, 0],
      eai_exp = [0], tot_value = 0, aai_agg = 0\<rparr>
   = Inr \<lparr>imp_unit = ''USD'', event_id = [1, 2], frequency = [1 / 10, 1 / 100],
      at_event = [- 5, - 5], eai_exp = [- (11 / 20)], tot_value = 100, aai_agg = 0\<rparr>"
  by (simp add: exposure_step_def exn_one_exposure iadd_at_def gather_def scatter_def
      exn_simps ex_hazard_simps)

lemma exg_step:
  "exposure_step 0 ex_exposures exg_hazard ex_imp_fun
     \<lparr>imp_unit = ''USD'', event_id = [1, 2], frequency = [1 / 10, 1 / 100], at_event = [0, 0],
      eai_exp = [0], tot_value = 0, aai_agg = 0\<rparr>
   = Inr \<lparr>imp_unit = ''USD'', event_id = [1, 2], frequency = [1 / 10, 1 / 100],
      at_event = [- 50, - 100], eai_exp = [- 6], tot_value = 100, aai_agg = 0\<rparr>"
  by (simp add: exposure_step_def exg_one_exposure iadd_at_def gather_def scatter_def
      ex_exposures_simps exg_simps)

lemma exn_calc:
  "calc no_assign Impact_init exn_exposures ex_funcs ex_hazard =
     Inr \<lparr>imp_unit = ''USD'', event_id = [1, 2], frequency = [1 / 10, 1 / 100],
          at_event = [- 5, - 5], eai_exp = [- (11 / 20)], tot_value = 100,
          aai_agg = - (11 / 20)\<rparr>"
  by (simp add: calc_def exn_assigned exn_select exn_initialize ex_funcs_TC exn_step
      gather_def np_where_def broadcast2_def exn_simps ex_hazard_simps ex_imp_fun_simps)

lemma exg_calc:
  "calc no_assign Impact_init ex_exposures ex_funcs exg_hazard =
     Inr \<lparr>imp_unit = ''USD'', event_id = [1, 2], frequency = [1 / 10, 1 / 100],
          at_event = [- 50, - 100], eai_exp = [- 6], tot_value = 100, aai_agg = - 6\<rparr>"
  by (simp add: calc_def exg_assigned exg_select exg_initialize ex_funcs_TC exg_step
      gather_def np_where_def broadcast2_def ex_exposures_simps exg_simps ex_imp_fun_simps)

section \<open>The claims\<close>

text \<open>
  C1 (conservation). On every valid input, \<^verbatim>\<open>calc\<close> on a freshly constructed \<^verbatim>\<open>Impact\<close>
  returns, and the sum of \<^verbatim>\<open>eai_exp\<close> over the exposures equals \<^verbatim>\<open>aai_agg\<close> (in exact
  arithmetic): each step adds the same sum of impact times frequency to both sides.
\<close>

theorem conservation:
  assumes E: "E = assign_if_needed assign E0 H" and valid: "valid_input E funcs H"
  shows "\<exists>r. calc assign Impact_init E0 funcs H = Inr r \<and> sum_list (eai_exp r) = aai_agg r"
proof -
  let ?P = "\<lambda>s. sum_list (eai_exp s) = sum_list (map2 (*) (at_event s) (haz_frequency H))"
  note sh = valid_inputD(1)[OF valid]
  have init: "?P (initialize Impact_init E H)"
    by (simp add: initialize_def dot_zero sum_list_replicate)
  have step: "?P s'"
    if a0: "f \<in> set (get_func funcs (haz_type H))" and a1: "imp_fun_ok f"
      and a2: "i \<in> set (eligible E H)" and a2': "exp_impact_id E ! i = if_id f"
      and a3: "state_ok E H s" and a4: "?P s"
      and a5: "exposure_step i E H f s = Inr s'" for f i s s'
  proof -
    from sh obtain cen where cen: "exp_assigned E (haz_type H) = Some cen" by (rule shapes_okD)
    from eligibleD[OF cen a2] a3 have i: "i < length (eai_exp s)" by (simp add: state_ok_def)
    obtain imp b where st:
      "sum_list (map2 (*) b (haz_frequency H)) =
       sum_list (map2 (*) (at_event s) (haz_frequency H))
       + sum_list (map2 (*) imp (map (\<lambda>e. haz_frequency H ! e) (event_rows H (centroid E H i))))"
      "exposure_step i E H f s =
       Inr (s\<lparr>at_event := b,
              eai_exp := (eai_exp s)[i := eai_exp s ! i
                + sum_list (map2 (*) imp (map (\<lambda>e. haz_frequency H ! e) (event_rows H (centroid E H i))))],
              tot_value := tot_value s + exp_value E ! i\<rparr>)"
      using exposure_step_valid[OF sh a1 a2 a3] by metis
    from st(2) a5 have s': "s' = s\<lparr>at_event := b,
              eai_exp := (eai_exp s)[i := eai_exp s ! i
                + sum_list (map2 (*) imp (map (\<lambda>e. haz_frequency H ! e) (event_rows H (centroid E H i))))],
              tot_value := tot_value s + exp_value E ! i\<rparr>" by simp
    show ?thesis using a4 st(1) i by (simp add: s' sum_list_update_real)
  qed
  have "(eligible E H = [] \<and> calc assign Impact_init E0 funcs H = Inr (initialize Impact_init E H)) \<or>
     (eligible E H \<noteq> [] \<and>
       (\<exists>s. impact_func_loop (get_func funcs (haz_type H)) (eligible E H) E H (initialize Impact_init E H) = Inr s \<and>
            state_ok E H s \<and> ?P s \<and>
            calc assign Impact_init E0 funcs H =
              Inr (s\<lparr>aai_agg := sum_list (map2 (*) (at_event s) (haz_frequency H))\<rparr>)))"
    by (rule calc_rule[where P = ?P, OF E valid init]) (rule step; assumption)
  then consider (empty) "calc assign Impact_init E0 funcs H = Inr (initialize Impact_init E H)"
    | (loop) s where "?P s"
        "calc assign Impact_init E0 funcs H =
           Inr (s\<lparr>aai_agg := sum_list (map2 (*) (at_event s) (haz_frequency H))\<rparr>)"
    by blast
  then show ?thesis
  proof cases
    case empty
    then show ?thesis by (simp add: initialize_def Impact_init_def sum_list_replicate)
  next
    case loop
    then show ?thesis by simp
  qed
qed

theorem conservation_witness:
  "ex_exposures = assign_if_needed no_assign ex_exposures ex_hazard \<and>
   valid_input ex_exposures ex_funcs ex_hazard \<and>
   (\<exists>r. calc no_assign Impact_init ex_exposures ex_funcs ex_hazard = Inr r \<and>
        sum_list (eai_exp r) = aai_agg r)"
  using conservation[of ex_exposures no_assign ex_exposures ex_hazard ex_funcs]
  by (simp add: ex_assigned ex_valid)

text \<open>
  C2 (end-to-end example). One exposure of value 100, deductible 0, cover 100; breakpoints
  intensity [0, 10], mdr [0, 1], paa [0, 1]; two events of frequency 0.1 and 0.01 with
  intensity 5 and 10 at the exposure's centroid and fraction 1. \<^verbatim>\<open>calc\<close> gives
  \<^verbatim>\<open>at_event = [50, 100]\<close>, \<^verbatim>\<open>eai_exp = [6]\<close>, \<^verbatim>\<open>aai_agg = 6\<close>, \<^verbatim>\<open>tot_value = 100\<close>, and
  \<^verbatim>\<open>calc_freq_curve\<close> on that result gives impact [100, 50] and return periods
  [100, 100/11], whatever sorting routine is behind \<^verbatim>\<open>np.argsort\<close>.
\<close>

theorem end_to_end_example:
  "calc no_assign Impact_init ex_exposures ex_funcs ex_hazard = Inr ex_impact \<and>
   at_event ex_impact = [50, 100] \<and> eai_exp ex_impact = [6] \<and> aai_agg ex_impact = 6 \<and>
   tot_value ex_impact = 100 \<and>
   (\<forall>srt. is_argsort (at_event ex_impact) (srt (at_event ex_impact)) \<longrightarrow>
      calc_freq_curve srt ex_impact =
        Inr \<lparr>return_per = [Fin 100, Fin (100 / 11)], impact = [100, 50], ifc_unit = ''USD''\<rparr>)"
  using ex_calc ex_freq_curve by (simp add: ex_impact_def)

theorem end_to_end_example_witness:
  "is_argsort (at_event ex_impact) (argsort_stable (at_event ex_impact)) \<and>
   calc_freq_curve argsort_stable ex_impact =
     Inr \<lparr>return_per = [Fin 100, Fin (100 / 11)], impact = [100, 50], ifc_unit = ''USD''\<rparr>"
  using end_to_end_example argsort_stable_is_argsort[of "at_event ex_impact"] by blast

text \<open>
  C3 (clipping law), as the code has it. The claim bounds every per-event impact of
  \<^verbatim>\<open>_one_exposure\<close> by the cover. The clipping of line 244 stands behind the guard of line
  242, deductible > 0 or cover < value; with deductible 0, cover = value = 100 and a mean
  damage ratio of 2 the raw impact 200 is returned unclipped.
\<close>

theorem clipping_law_counterexample:
  "one_exposure 0 ex_exposures ex_hazard exm_imp_fun = Inr ([0, 1], [100, 200]) \<and>
   exp_cover ex_exposures ! 0 = 100 \<and> \<not> (200 \<le> exp_cover ex_exposures ! 0) \<and>
   exp_value ex_exposures ! 0 = 100 \<and> exp_deductible ex_exposures ! 0 = 0 \<and>
   list_all (\<lambda>y. 0 \<le> y) (if_mdr exm_imp_fun) \<and>
   list_all (\<lambda>p. 0 \<le> p \<and> p \<le> 1) (if_paa exm_imp_fun) \<and>
   cell (haz_fraction ex_hazard) 0 0 = 1 \<and> cell (haz_fraction ex_hazard) 1 0 = 1"
  by (simp add: one_exposure_def raw_impact_def event_rows_def py_index_def gather_def
      calc_mdr_def np_interp_def count_nonzero_def upt_2
      ex_exposures_simps ex_hazard_simps exm_simps)

text \<open>
  C3, amended: for an exposure with cover \<open>c \<ge> 0\<close>, value \<open>\<ge> 0\<close>, mdr \<open>\<ge> 0\<close> and fraction
  in [0, 1], no per-event impact returned by \<^verbatim>\<open>_one_exposure\<close> exceeds \<open>c\<close> provided the
  clipping applies (deductible > 0 or cover < value) or every mean damage ratio is at most 1.
\<close>

theorem clipping_law_amended:
  assumes sh: "shapes_ok E H" and fok: "imp_fun_ok f" and asg: "assigned_at E H i"
    and v: "0 \<le> exp_value E ! i" and cov: "0 \<le> exp_cover E ! i"
    and mdr: "\<forall>y\<in>set (if_mdr f). 0 \<le> y"
    and fr: "\<forall>e<nrows (haz_fraction H).
               0 \<le> cell (haz_fraction H) e (centroid E H i) \<and>
               cell (haz_fraction H) e (centroid E H i) \<le> 1"
    and guard: "exp_deductible E ! i > 0 \<or> exp_cover E ! i < exp_value E ! i \<or>
                (\<forall>y\<in>set (if_mdr f). y \<le> 1)"
  shows "\<exists>rows imp. one_exposure i E H f = Inr (rows, imp) \<and>
           (\<forall>x\<in>set imp. x \<le> exp_cover E ! i)"
proof -
  let ?raw = "spec_raw_impact E H f i"
  from sh obtain cen where cen: "nrows (haz_fraction H) = nrows (haz_intensity H)"
    by (rule shapes_okD)
  show ?thesis
  proof (cases "count_nonzero ?raw > 0 \<and>
      (exp_deductible E ! i > 0 \<or> exp_cover E ! i < exp_value E ! i)")
    case True
    then show ?thesis
      unfolding one_exposure_valid[OF sh fok asg] using clip_impact_le by simp
  next
    case False
    have "\<forall>x\<in>set ?raw. x \<le> exp_cover E ! i"
    proof (cases "count_nonzero ?raw = 0")
      case True
      then have "\<forall>x\<in>set ?raw. x = 0" by (simp add: count_nonzero_0)
      with cov show ?thesis by fastforce
    next
      case nz: False
      with False have ng: "\<not> exp_deductible E ! i > 0" "\<not> exp_cover E ! i < exp_value E ! i"
        by auto
      with guard have "\<forall>y\<in>set (if_mdr f). y \<le> 1" by simp
      with mdr have m: "\<forall>y\<in>set (if_mdr f). 0 \<le> y \<and> y \<le> 1" by simp
      have "\<forall>x\<in>set ?raw. x \<le> exp_value E ! i"
        using fr cen by (intro spec_raw_impact_le_value[OF fok v m]) simp
      with ng(2) show ?thesis by fastforce
    qed
    moreover have "one_exposure i E H f = Inr (event_rows H (centroid E H i), ?raw)"
      unfolding one_exposure_valid[OF sh fok asg] using False by (simp only: if_False)
    ultimately show ?thesis by blast
  qed
qed

theorem clipping_law_amended_witness:
  "shapes_ok exc_exposures ex_hazard \<and> imp_fun_ok ex_imp_fun \<and>
   assigned_at exc_exposures ex_hazard 0 \<and>
   0 \<le> exp_value exc_exposures ! 0 \<and> 0 \<le> exp_cover exc_exposures ! 0 \<and>
   list_all (\<lambda>y. 0 \<le> y) (if_mdr ex_imp_fun) \<and>
   exp_deductible exc_exposures ! 0 > 0 \<and>
   one_exposure 0 exc_exposures ex_hazard ex_imp_fun = Inr ([0, 1], [45, 60]) \<and>
   list_all (\<lambda>x. x \<le> exp_cover exc_exposures ! 0) [45, 60]"
  using clipping_law_amended[of exc_exposures ex_hazard ex_imp_fun 0]
  by (simp add: exc_shapes ex_imp_fun_ok exc_assigned_at exc_one_exposure exc_simps
      ex_hazard_simps ex_imp_fun_simps)

text \<open>
  C4 (missing impact function), as the code has it. The claim asks for a hard error when an
  eligible exposure's \<^verbatim>\<open>impact_id\<close> matches no impact function of the hazard's type. The
  loop of line 174 runs over the impact functions and picks the exposures of each, so such
  an exposure is never visited: \<^verbatim>\<open>calc\<close> returns normally, here with all totals zero
  although the exposure is worth 100.
\<close>

theorem unmatched_exposure_counterexample:
  "eligible ex4_exposures ex_hazard = [0] \<and>
   exp_impact_id ex4_exposures ! 0 \<notin> set (map if_id (get_func ex_funcs (haz_type ex_hazard))) \<and>
   calc no_assign Impact_init ex4_exposures ex_funcs ex_hazard =
     Inr \<lparr>imp_unit = ''USD'', event_id = [1, 2], frequency = [1 / 10, 1 / 100],
          at_event = [0, 0], eai_exp = [0], tot_value = 0, aai_agg = 0\<rparr>"
  by (simp add: ex4_eligible calc_def ex4_assigned ex4_select ex4_initialize ex_funcs_TC
      gather_def np_where_def broadcast2_def ex4_simps ex_hazard_simps ex_imp_fun_simps)

text \<open>
  C4, amended: on every valid input \<^verbatim>\<open>calc\<close> returns normally; an eligible exposure whose
  \<^verbatim>\<open>impact_id\<close> matches no impact function of the hazard's type is skipped, its \<^verbatim>\<open>eai_exp\<close>
  entry stays 0 and \<^verbatim>\<open>tot_value\<close> sums the matched eligible exposures only.
\<close>

theorem unmatched_exposure_skipped:
  assumes E: "E = assign_if_needed assign E0 H" and valid: "valid_input E funcs H"
  shows "\<exists>r. calc assign Impact_init E0 funcs H = Inr r \<and>
     (\<forall>i\<in>set (eligible E H).
        exp_impact_id E ! i \<notin> set (map if_id (get_func funcs (haz_type H))) \<longrightarrow>
        eai_exp r ! i = 0) \<and>
     tot_value r = sum_list (map (\<lambda>i. exp_value E ! i)
       (filter (\<lambda>i. exp_impact_id E ! i \<in> set (map if_id (get_func funcs (haz_type H))))
          (eligible E H)))"
proof -
  from calc_tot_value[OF E valid, of Impact_init]
  obtain r where r: "calc assign Impact_init E0 funcs H = Inr r"
    "tot_value r = sum_list (map (\<lambda>i. exp_value E ! i)
       (filter (\<lambda>i. exp_impact_id E ! i \<in> set (map if_id (get_func funcs (haz_type H))))
          (eligible E H)))" by blast
  have "eai_exp r ! i = 0"
    if "i \<in> set (eligible E H)"
      "exp_impact_id E ! i \<notin> set (map if_id (get_func funcs (haz_type H)))" for i
    using calc_eai_zero[OF E valid that(1), of Impact_init] that(2) r(1) by auto
  with r show ?thesis by blast
qed

theorem unmatched_exposure_skipped_witness:
  "ex4_exposures = assign_if_needed no_assign ex4_exposures ex_hazard \<and>
   valid_input ex4_exposures ex_funcs ex_hazard \<and>
   0 \<in> set (eligible ex4_exposures ex_hazard) \<and>
   exp_impact_id ex4_exposures ! 0 \<notin> set (map if_id (get_func ex_funcs (haz_type ex_hazard))) \<and>
   (\<exists>r. calc no_assign Impact_init ex4_exposures ex_funcs ex_hazard = Inr r \<and>
        eai_exp r ! 0 = 0 \<and> tot_value r = 0)"
  using unmatched_exposure_skipped[of ex4_exposures no_assign ex4_exposures ex_hazard ex_funcs]
  by (simp add: ex4_assigned ex4_valid ex4_eligible ex_funcs_TC ex4_simps ex_hazard_simps
      ex_imp_fun_simps)

text \<open>
  C5 (empty selection). \<^verbatim>\<open>exp_idx\<close> is exactly the list of the exposures with a positive
  value and a non-negative assigned centroid; when it is empty, as when every value is 0,
  \<^verbatim>\<open>calc\<close> on a freshly constructed \<^verbatim>\<open>Impact\<close> returns normally with \<^verbatim>\<open>at_event\<close> zero for
  every event, \<^verbatim>\<open>eai_exp\<close> zero for every exposure, \<^verbatim>\<open>tot_value = 0\<close> and \<^verbatim>\<open>aai_agg = 0\<close>.
\<close>

theorem empty_selection:
  assumes E: "E = assign_if_needed assign E0 H"
    and cen: "exp_assigned E (haz_type H) = Some cen"
    and len: "length cen = length (exp_value E)"
  shows "select_exposures E H = Inr (eligible E H) \<and>
     set (eligible E H) = {i. i < length (exp_value E) \<and> 0 < exp_value E ! i \<and> 0 \<le> cen ! i} \<and>
     (eligible E H = [] \<longrightarrow>
        calc assign Impact_init E0 funcs H =
          Inr \<lparr>imp_unit = exp_value_unit E, event_id = haz_event_id H,
               frequency = haz_frequency H,
               at_event = replicate (nrows (haz_intensity H)) 0,
               eai_exp = replicate (length (exp_value E)) 0,
               tot_value = 0, aai_agg = 0\<rparr>) \<and>
     (list_all (\<lambda>v. v = 0) (exp_value E) \<longrightarrow> eligible E H = [])"
proof (intro conjI impI)
  show "select_exposures E H = Inr (eligible E H)" using cen len by (rule select_exposures_eligible)
  show "set (eligible E H) = {i. i < length (exp_value E) \<and> 0 < exp_value E ! i \<and> 0 \<le> cen ! i}"
    using cen by (rule set_eligible)
  show "eligible E H = []" if "list_all (\<lambda>v. v = 0) (exp_value E)"
    using that by (rule eligible_all_zero)
  show "calc assign Impact_init E0 funcs H =
          Inr \<lparr>imp_unit = exp_value_unit E, event_id = haz_event_id H,
               frequency = haz_frequency H,
               at_event = replicate (nrows (haz_intensity H)) 0,
               eai_exp = replicate (length (exp_value E)) 0,
               tot_value = 0, aai_agg = 0\<rparr>" if "eligible E H = []"
    using calc_empty[OF E cen len that, of Impact_init funcs]
    by (simp add: initialize_def Impact_init_def)
qed

theorem empty_selection_witness:
  "ex0_exposures = assign_if_needed no_assign ex0_exposures ex_hazard \<and>
   exp_assigned ex0_exposures (haz_type ex_hazard) = Some [0] \<and>
   length [0::int] = length (exp_value ex0_exposures) \<and>
   list_all (\<lambda>v. v = 0) (exp_value ex0_exposures) \<and>
   eligible ex0_exposures ex_hazard = [] \<and>
   select_exposures ex0_exposures ex_hazard = Inr [] \<and>
   calc no_assign Impact_init ex0_exposures ex_funcs ex_hazard =
     Inr \<lparr>imp_unit = ''USD'', event_id = [1, 2], frequency = [1 / 10, 1 / 100],
          at_event = [0, 0], eai_exp = [0], tot_value = 0, aai_agg = 0\<rparr>"
  using empty_selection[of ex0_exposures no_assign ex0_exposures ex_hazard "[0]" ex_funcs]
  by (simp add: ex0_assigned ex0_simps ex_hazard_simps numeral_2_eq_2)



text \<open>
  C7 (monotone frequency curve). For an \<^verbatim>\<open>Impact\<close> with one frequency per event, all of
  them non-negative, and whatever routine sorts behind \<^verbatim>\<open>np.argsort\<close>, \<^verbatim>\<open>calc_freq_curve\<close>
  returns a curve whose impacts are a permutation of \<^verbatim>\<open>at_event\<close> in non-increasing order
  and whose return periods are non-increasing with the rank (\<^verbatim>\<open>inf\<close> being the largest).
\<close>

theorem monotone_frequency_curve:
  assumes srt: "is_argsort (at_event self) (srt (at_event self))"
    and len: "length (at_event self) \<le> length (frequency self)"
    and freq: "\<forall>x\<in>set (frequency self). 0 \<le> x"
  shows "\<exists>c. calc_freq_curve srt self = Inr c \<and>
     sorted_wrt (\<lambda>a b. b \<le> a) (impact c) \<and> mset (impact c) = mset (at_event self) \<and>
     length (return_per c) = length (impact c) \<and>
     sorted_wrt (\<lambda>a b. np_le b a) (return_per c)"
proof -
  let ?idx = "srt (at_event self)"
  let ?fq = "map (\<lambda>i. frequency self ! i) (rev ?idx)"
  have lt: "\<forall>i\<in>set ?idx. i < length (frequency self)"
    using is_argsortD(1)[OF srt] len by auto
  have f: "\<forall>x\<in>set ?fq. 0 \<le> x" using freq lt by auto
  have "sorted (rev (map (\<lambda>i. at_event self ! i) (rev ?idx)))"
    using is_argsortD(4)[OF srt] by (simp add: rev_map)
  then have 1: "sorted_wrt (\<lambda>a b. b \<le> a) (map (\<lambda>i. at_event self ! i) (rev ?idx))"
    by (simp add: sorted_wrt_rev)
  have 2: "mset (map (\<lambda>i. at_event self ! i) (rev ?idx)) = mset (at_event self)"
    using is_argsortD(5)[OF srt] by (simp add: rev_map[symmetric])
  show ?thesis
    unfolding calc_freq_curve_valid[of self srt, OF srt len]
    using 1 2 return_per_sorted[OF f] by (simp add: cumsum_def length_cumsum_from)
qed

theorem monotone_frequency_curve_witness:
  "is_argsort (at_event exf_impact) (argsort_stable (at_event exf_impact)) \<and>
   length (at_event exf_impact) \<le> length (frequency exf_impact) \<and>
   list_all (\<lambda>x. 0 \<le> x) (frequency exf_impact) \<and>
   calc_freq_curve argsort_stable exf_impact =
     Inr \<lparr>return_per = [PInf, Fin 20, Fin (20 / 3)], impact = [100, 70, 50], ifc_unit = ''USD''\<rparr> \<and>
   sorted_wrt (\<lambda>a b. b \<le> a) [100, 70, 50 :: real] \<and>
   mset [100, 70, 50 :: real] = mset (at_event exf_impact) \<and>
   sorted_wrt (\<lambda>a b. np_le b a) [PInf, Fin 20, Fin (20 / 3)]"
  using monotone_frequency_curve[of exf_impact argsort_stable]
    argsort_stable_is_argsort[of "at_event exf_impact"]
  by (simp add: exf_freq_curve exf_simps)

text \<open>
  C8 (non-negativity), as the code has it. The claim asks for non-negative results whenever
  mdr, paa, value and frequency are non-negative. With a cover of -5 the guard of line 243
  holds (cover < value) and \<^verbatim>\<open>np.minimum\<close> returns the cover: every impact is -5. With a
  fraction of -1 the raw impact is negative and nothing clips it. Both inputs meet the
  claim's four conditions.
\<close>

theorem non_negativity_counterexample:
  "valid_input exn_exposures ex_funcs ex_hazard \<and>
   list_all (\<lambda>y. 0 \<le> y) (if_mdr ex_imp_fun) \<and> list_all (\<lambda>p. 0 \<le> p) (if_paa ex_imp_fun) \<and>
   list_all (\<lambda>v. 0 \<le> v) (exp_value exn_exposures) \<and>
   list_all (\<lambda>x. 0 \<le> x) (haz_frequency ex_hazard) \<and>
   exp_cover exn_exposures = [- 5] \<and>
   calc no_assign Impact_init exn_exposures ex_funcs ex_hazard =
     Inr \<lparr>imp_unit = ''USD'', event_id = [1, 2], frequency = [1 / 10, 1 / 100],
          at_event = [- 5, - 5], eai_exp = [- (11 / 20)], tot_value = 100,
          aai_agg = - (11 / 20)\<rparr> \<and>
   valid_input ex_exposures ex_funcs exg_hazard \<and>
   list_all (\<lambda>v. 0 \<le> v) (exp_value ex_exposures) \<and>
   list_all (\<lambda>x. 0 \<le> x) (haz_frequency exg_hazard) \<and>
   cell (haz_fraction exg_hazard) 0 0 = - 1 \<and> cell (haz_fraction exg_hazard) 1 0 = - 1 \<and>
   calc no_assign Impact_init ex_exposures ex_funcs exg_hazard =
     Inr \<lparr>imp_unit = ''USD'', event_id = [1, 2], frequency = [1 / 10, 1 / 100],
          at_event = [- 50, - 100], eai_exp = [- 6], tot_value = 100, aai_agg = - 6\<rparr>"
  by (simp add: exn_valid exg_valid exn_calc exg_calc exn_simps exg_simps ex_exposures_simps
      ex_hazard_simps ex_imp_fun_simps)

text \<open>
  C8, amended: whenever all mdr, paa, value and frequency inputs and also all fraction and
  cover inputs are non-negative, every entry of \<^verbatim>\<open>at_event\<close> and \<^verbatim>\<open>eai_exp\<close> and the scalars
  \<^verbatim>\<open>tot_value\<close> and \<^verbatim>\<open>aai_agg\<close> produced by \<^verbatim>\<open>calc\<close> are non-negative.
\<close>

theorem non_negativity_amended:
  assumes E: "E = assign_if_needed assign E0 H" and valid: "valid_input E funcs H"
    and mdr: "\<forall>f\<in>set (get_func funcs (haz_type H)). \<forall>y\<in>set (if_mdr f). 0 \<le> y"
    and paa: "\<forall>f\<in>set (get_func funcs (haz_type H)). \<forall>p\<in>set (if_paa f). 0 \<le> p"
    and val: "\<forall>v\<in>set (exp_value E). 0 \<le> v"
    and fr: "\<forall>e<nrows (haz_fraction H). \<forall>c<ncols (haz_fraction H). 0 \<le> cell (haz_fraction H) e c"
    and cov: "\<forall>c\<in>set (exp_cover E). 0 \<le> c"
    and freq: "\<forall>x\<in>set (haz_frequency H). 0 \<le> x"
  shows "\<exists>r. calc assign Impact_init E0 funcs H = Inr r \<and>
     (\<forall>x\<in>set (at_event r). 0 \<le> x) \<and> (\<forall>x\<in>set (eai_exp r). 0 \<le> x) \<and>
     0 \<le> tot_value r \<and> 0 \<le> aai_agg r"
proof -
  let ?fs = "get_func funcs (haz_type H)"
  let ?P = "\<lambda>s. (\<forall>x\<in>set (at_event s). 0 \<le> x) \<and> (\<forall>x\<in>set (eai_exp s). 0 \<le> x) \<and> 0 \<le> tot_value s"
  note sh = valid_inputD(1)[OF valid]
  from sh obtain cen where cen: "exp_assigned E (haz_type H) = Some cen"
    "length (exp_cover E) = length (exp_value E)"
    "ncols (haz_fraction H) = ncols (haz_intensity H)"
    "nrows (haz_fraction H) = nrows (haz_intensity H)"
    "length (haz_frequency H) = nrows (haz_intensity H)" by (rule shapes_okD)
  have init: "?P (initialize Impact_init E H)" by (simp add: initialize_def)
  have step: "?P s'"
    if a0: "f \<in> set ?fs" and a1: "imp_fun_ok f"
      and a2: "i \<in> set (eligible E H)" and a2': "exp_impact_id E ! i = if_id f"
      and a3: "state_ok E H s" and a4: "?P s"
      and a5: "exposure_step i E H f s = Inr s'" for f i s s'
  proof -
    let ?rows = "event_rows H (centroid E H i)"
    let ?fq = "map (\<lambda>e. haz_frequency H ! e) ?rows"
    note asg = eligible_assigned_at[OF a2]
    from eligibleD[OF cen(1) a2] have i: "i < length (exp_value E)" "0 < exp_value E ! i" by auto
    from a3 i have ie: "i < length (eai_exp s)" by (simp add: state_ok_def)
    obtain imp b where st:
      "one_exposure i E H f = Inr (?rows, imp)"
      "iadd_at (at_event s) ?rows imp = Inr b"
      "exposure_step i E H f s =
       Inr (s\<lparr>at_event := b,
              eai_exp := (eai_exp s)[i := eai_exp s ! i + sum_list (map2 (*) imp ?fq)],
              tot_value := tot_value s + exp_value E ! i\<rparr>)"
      using exposure_step_valid[OF sh a1 a2 a3] by metis
    have frc: "\<forall>e<nrows (haz_intensity H). 0 \<le> cell (haz_fraction H) e (centroid E H i)"
      using fr centroid_lt_ncols[OF sh asg] cen(3,4) by simp
    have covi: "0 \<le> exp_cover E ! i" using cov i(1) cen(2) by simp
    have imp: "\<forall>x\<in>set imp. 0 \<le> x"
      using one_exposure_nonneg[OF sh a1 asg st(1) _ _ frc covi] i(2) mdr a0 by simp
    have b: "\<forall>x\<in>set b. 0 \<le> x" using iadd_at_nonneg[OF st(2) _ imp] a4 by simp
    have "\<forall>y\<in>set ?fq. 0 \<le> y"
      using freq event_rows_props(2)[of H "centroid E H i"] cen(5) by simp
    then have "0 \<le> sum_list (map2 (*) imp ?fq)" using imp by (intro sum_list_map2_nonneg)
    moreover have "0 \<le> eai_exp s ! i" using a4 ie by simp
    ultimately have v: "0 \<le> eai_exp s ! i + sum_list (map2 (*) imp ?fq)" by simp
    have eai: "\<forall>x\<in>set ((eai_exp s)[i := eai_exp s ! i + sum_list (map2 (*) imp ?fq)]). 0 \<le> x"
      using v a4 set_update_subset_insert[of "eai_exp s" i] by blast
    from st(3) a5 have s': "s' = s\<lparr>at_event := b,
              eai_exp := (eai_exp s)[i := eai_exp s ! i + sum_list (map2 (*) imp ?fq)],
              tot_value := tot_value s + exp_value E ! i\<rparr>" by simp
    show ?thesis unfolding s' using b eai a4 i(2) by simp
  qed
  have "(eligible E H = [] \<and> calc assign Impact_init E0 funcs H = Inr (initialize Impact_init E H)) \<or>
     (eligible E H \<noteq> [] \<and>
       (\<exists>s. impact_func_loop ?fs (eligible E H) E H (initialize Impact_init E H) = Inr s \<and>
            state_ok E H s \<and> ?P s \<and>
            calc assign Impact_init E0 funcs H =
              Inr (s\<lparr>aai_agg := sum_list (map2 (*) (at_event s) (haz_frequency H))\<rparr>)))"
    by (rule calc_rule[where P = ?P, OF E valid init]) (rule step; assumption)
  then consider (empty) "calc assign Impact_init E0 funcs H = Inr (initialize Impact_init E H)"
    | (loop) s where "?P s"
        "calc assign Impact_init E0 funcs H =
           Inr (s\<lparr>aai_agg := sum_list (map2 (*) (at_event s) (haz_frequency H))\<rparr>)"
    by blast
  then show ?thesis
  proof cases
    case empty
    then show ?thesis by (simp add: initialize_def Impact_init_def)
  next
    case loop
    have "0 \<le> sum_list (map2 (*) (at_event s) (haz_frequency H))"
      using loop(1) freq by (intro sum_list_map2_nonneg) auto
    with loop show ?thesis by simp
  qed
qed

theorem non_negativity_amended_witness:
  "exc_exposures = assign_if_needed no_assign exc_exposures ex_hazard \<and>
   valid_input exc_exposures ex_funcs ex_hazard \<and>
   list_all (\<lambda>f. list_all (\<lambda>y. 0 \<le> y) (if_mdr f)) (get_func ex_funcs (haz_type ex_hazard)) \<and>
   list_all (\<lambda>f. list_all (\<lambda>p. 0 \<le> p) (if_paa f)) (get_func ex_funcs (haz_type ex_hazard)) \<and>
   list_all (\<lambda>v. 0 \<le> v) (exp_value exc_exposures) \<and>
   list_all (\<lambda>c. 0 \<le> c) (exp_cover exc_exposures) \<and>
   list_all (\<lambda>x. 0 \<le> x) (haz_frequency ex_hazard) \<and>
   (\<exists>r. calc no_assign Impact_init exc_exposures ex_funcs ex_hazard = Inr r \<and>
      (\<forall>x\<in>set (at_event r). 0 \<le> x) \<and> (\<forall>x\<in>set (eai_exp r). 0 \<le> x) \<and>
      0 \<le> tot_value r \<and> 0 \<le> aai_agg r)"
  using non_negativity_amended[of exc_exposures no_assign exc_exposures ex_hazard ex_funcs]
  by (simp add: exc_assigned exc_valid ex_funcs_TC exc_simps ex_hazard_simps ex_imp_fun_simps)

text \<open>
  C9 (zero exceedance frequency). \<^verbatim>\<open>calc_freq_curve\<close> does not raise when the cumulative
  frequency at some rank is 0: the return period at that rank is \<^verbatim>\<open>inf\<close>; in particular at
  rank 0 when the most damaging event (the last index of the ascending argsort) has
  frequency 0.
\<close>

theorem zero_frequency_return_period:
  assumes srt: "is_argsort (at_event self) (srt (at_event self))"
    and len: "length (at_event self) \<le> length (frequency self)"
  shows "\<exists>c. calc_freq_curve srt self = Inr c \<and>
     length (return_per c) = length (at_event self) \<and>
     (\<forall>k<length (at_event self).
        cumsum (map (\<lambda>i. frequency self ! i) (rev (srt (at_event self)))) ! k = 0 \<longrightarrow>
        return_per c ! k = PInf) \<and>
     (at_event self \<noteq> [] \<longrightarrow> frequency self ! last (srt (at_event self)) = 0 \<longrightarrow>
        return_per c ! 0 = PInf)"
proof -
  let ?idx = "srt (at_event self)"
  let ?fq = "map (\<lambda>i. frequency self ! i) (rev ?idx)"
  have n: "length ?idx = length (at_event self)" using is_argsortD(2)[OF srt] .
  have l: "length (cumsum ?fq) = length (at_event self)"
    by (simp add: cumsum_def length_cumsum_from n)
  have a: "\<forall>k<length (at_event self). cumsum ?fq ! k = 0 \<longrightarrow> map np_recip (cumsum ?fq) ! k = PInf"
    using l by (simp add: np_recip_def)
  have b: "map np_recip (cumsum ?fq) ! 0 = PInf"
    if "at_event self \<noteq> []" "frequency self ! last ?idx = 0"
  proof -
    from that(1) n have ne: "?idx \<noteq> []" by auto
    then obtain i rest where r: "rev ?idx = i # rest" by (cases "rev ?idx") auto
    then have "i = last ?idx" using ne by (metis hd_rev list.sel(1))
    with that(2) have z: "frequency self ! i = 0" by simp
    have "cumsum ?fq = (0 + frequency self ! i)
        # cumsum_from (0 + frequency self ! i) (map (\<lambda>i. frequency self ! i) rest)"
      unfolding r by (simp add: cumsum_def)
    then show ?thesis using z by (simp add: np_recip_def)
  qed
  show ?thesis
    unfolding calc_freq_curve_valid[of self srt, OF srt len] using l a b by simp
qed

theorem zero_frequency_return_period_witness:
  "is_argsort (at_event exf_impact) (argsort_stable (at_event exf_impact)) \<and>
   length (at_event exf_impact) \<le> length (frequency exf_impact) \<and>
   at_event exf_impact \<noteq> [] \<and>
   frequency exf_impact ! last (argsort_stable (at_event exf_impact)) = 0 \<and>
   (\<exists>c. calc_freq_curve argsort_stable exf_impact = Inr c \<and> return_per c ! 0 = PInf)"
  using zero_frequency_return_period[of exf_impact argsort_stable]
    argsort_stable_is_argsort[of "at_event exf_impact"]
  by (simp add: exf_simps exf_argsort) blast

text \<open>
  C10 (total value). \<^verbatim>\<open>tot_value\<close> is the sum of the values of the eligible exposures whose
  \<^verbatim>\<open>impact_id\<close> is the id of an impact function of the hazard's type, whether or not any
  event reaches them: an exposure whose intensity column is zero for every event is counted
  in full while its \<^verbatim>\<open>eai_exp\<close> entry stays 0.
\<close>

theorem tot_value_counts_matched:
  assumes E: "E = assign_if_needed assign E0 H" and valid: "valid_input E funcs H"
  shows "\<exists>r. calc assign Impact_init E0 funcs H = Inr r \<and>
     tot_value r = sum_list (map (\<lambda>i. exp_value E ! i)
       (filter (\<lambda>i. exp_impact_id E ! i \<in> set (map if_id (get_func funcs (haz_type H))))
          (eligible E H))) \<and>
     (\<forall>i\<in>set (eligible E H).
        (\<forall>e<nrows (haz_intensity H). cell (haz_intensity H) e (centroid E H i) = 0) \<longrightarrow>
        eai_exp r ! i = 0)"
proof -
  from calc_tot_value[OF E valid, of Impact_init]
  obtain r where r: "calc assign Impact_init E0 funcs H = Inr r"
    "tot_value r = sum_list (map (\<lambda>i. exp_value E ! i)
       (filter (\<lambda>i. exp_impact_id E ! i \<in> set (map if_id (get_func funcs (haz_type H))))
          (eligible E H)))" by blast
  have "eai_exp r ! i = 0"
    if "i \<in> set (eligible E H)"
      "\<forall>e<nrows (haz_intensity H). cell (haz_intensity H) e (centroid E H i) = 0" for i
  proof -
    from that(2) have "event_rows H (centroid E H i) = []" by (simp add: event_rows_empty_iff)
    with calc_eai_zero[OF E valid that(1), of Impact_init] r(1) show ?thesis by auto
  qed
  with r show ?thesis by blast
qed

theorem tot_value_counts_matched_witness:
  "ex2_exposures = assign_if_needed no_assign ex2_exposures ex2_hazard \<and>
   valid_input ex2_exposures ex_funcs ex2_hazard \<and>
   eligible ex2_exposures ex2_hazard = [0, 1] \<and>
   cell (haz_intensity ex2_hazard) 0 (centroid ex2_exposures ex2_hazard 1) = 0 \<and>
   cell (haz_intensity ex2_hazard) 1 (centroid ex2_exposures ex2_hazard 1) = 0 \<and>
   (\<exists>r. calc no_assign Impact_init ex2_exposures ex_funcs ex2_hazard = Inr r \<and>
        tot_value r = 140 \<and> eai_exp r ! 1 = 0)"
  using tot_value_counts_matched[of ex2_exposures no_assign ex2_exposures ex2_hazard ex_funcs]
    ex2_zero_column
  by (simp add: ex2_assigned ex2_valid ex2_eligible ex_funcs_TC ex2_exposures_simps
      ex2_hazard_simps ex_imp_fun_simps centroid_def) blast

end
